theory Spec2Isabelle
  imports Complex_Main "HOL-Library.Multiset" "HOL-Library.Char_ord"
    "HOL-Library.List_Lexorder"
begin

section \<open>Python values\<close>

text \<open>
  JSON documents as Python's \<open>json\<close> module parses them. Numbers are modelled as
  integers; no function of the scheduler computes with them. A \<open>dict\<close> keeps its
  insertion order, so it is an association list; Python never holds a key twice, which
  is the side condition \<open>distinct (map fst d)\<close> wherever it matters.
\<close>

datatype jval =
    JNull
  | JBool bool
  | JInt int
  | JStr string
  | JList "jval list"
  | JDict "(string \<times> jval) list"

datatype py_error = KeyError | IndexError | TypeError | AttributeError | ValueError
  | JSONDecodeError | RuntimeError | TransportError | OSError

type_synonym ('k, 'v) dict = "('k \<times> 'v) list"

text \<open>\<open>d[k] = v\<close>: an existing key keeps its position, a new key goes to the end.\<close>

fun dict_set :: "'k \<Rightarrow> 'v \<Rightarrow> ('k, 'v) dict \<Rightarrow> ('k, 'v) dict" where
  "dict_set k v [] = [(k, v)]"
| "dict_set k v (p # ps) = (if fst p = k then (k, v) # ps else p # dict_set k v ps)"

text \<open>\<open>del d[k]\<close>.\<close>

definition dict_del :: "'k \<Rightarrow> ('k, 'v) dict \<Rightarrow> ('k, 'v) dict" where
  "dict_del k d = filter (\<lambda>p. fst p \<noteq> k) d"

text \<open>\<open>len(v)\<close>: defined on lists, strings and dicts, a \<open>TypeError\<close> elsewhere.\<close>

fun py_len :: "jval \<Rightarrow> py_error + int" where
  "py_len (JList xs) = Inr (int (length xs))"
| "py_len (JStr s) = Inr (int (length s))"
| "py_len (JDict d) = Inr (int (length d))"
| "py_len _ = Inl TypeError"

text \<open>
  Python's \<open>==\<close> on JSON values: \<open>True\<close> and \<open>False\<close> are the integers 1 and 0, lists
  are equal elementwise, dicts are equal as mappings, whatever the order of their keys.
  \<open>py_norm\<close> writes a value in a form that equal values share: booleans as integers and
  the entries of a dict in the order of their keys.
\<close>

primrec py_norm :: "jval \<Rightarrow> jval" where
  "py_norm JNull = JNull"
| "py_norm (JBool b) = JInt (if b then 1 else 0)"
| "py_norm (JInt n) = JInt n"
| "py_norm (JStr s) = JStr s"
| "py_norm (JList xs) = JList (map py_norm xs)"
| "py_norm (JDict d) = JDict (sort_key fst (map (map_prod id py_norm) d))"

definition py_eq :: "jval \<Rightarrow> jval \<Rightarrow> bool" where
  "py_eq a b = (py_norm a = py_norm b)"

section \<open>Load balancer (app/services/load\_balancer.py)\<close>

record ComfyUIServerStatus =
  server_address :: string
  is_available :: bool
  queue_remaining :: int
  queue_pending :: int
  current_tasks :: int
  last_check_time :: real
  error_count :: int

text \<open>The dataclass defaults.\<close>

definition new_status :: "string \<Rightarrow> ComfyUIServerStatus" where
  "new_status addr = \<lparr>server_address = addr, is_available = True, queue_remaining = 0,
     queue_pending = 0, current_tasks = 0, last_check_time = 0, error_count = 0\<rparr>"

definition total_load :: "ComfyUIServerStatus \<Rightarrow> int" where
  "total_load s = queue_remaining s + queue_pending s + current_tasks s"

type_synonym registry = "(string, ComfyUIServerStatus) dict"

text \<open>\<open>ComfyUILoadBalancer.__init__\<close>: one fresh status per configured address.\<close>

definition init_servers :: "string list \<Rightarrow> registry" where
  "init_servers server_addresses = fold (\<lambda>addr servers. dict_set addr (new_status addr) servers)
     server_addresses []"

text \<open>
  \<open>settings.max_error_count\<close> is read from the environment; the functions take it as
  the parameter \<open>mx\<close>. Its default in app/config.py is 3.
\<close>

definition max_error_count_default :: int where
  "max_error_count_default = 3"

definition mark_server_error :: "int \<Rightarrow> registry \<Rightarrow> string \<Rightarrow> py_error + registry" where
  "mark_server_error mx servers addr =
     (case map_of servers addr of
        None \<Rightarrow> Inl KeyError
      | Some status \<Rightarrow>
          let status1 = status\<lparr>error_count := error_count status + 1\<rparr>;
              status2 = (if error_count status1 \<ge> mx then status1\<lparr>is_available := False\<rparr>
                         else status1)
          in Inr (dict_set addr status2 servers))"

text \<open>
  What \<open>requests.get\<close> gave the health check: a response with its status code and
  what \<open>response.json()\<close> yields (\<open>None\<close> when the body is not JSON), or an
  exception (timeout, connection refused).
\<close>

datatype probe = Response nat "jval option" | RequestFailed

text \<open>\<open>data.get(key, [])\<close>; on a value that is no dict the call raises.\<close>

fun get_default_list :: "jval \<Rightarrow> string \<Rightarrow> py_error + jval" where
  "get_default_list (JDict d) key =
     Inr (case map_of d key of None \<Rightarrow> JList [] | Some v \<Rightarrow> v)"
| "get_default_list _ key = Inl AttributeError"

text \<open>
  The body of the \<open>try\<close> on a 200 response. \<open>Inl\<close> carries the registry as it
  stands when an exception leaves the block: the second \<open>len\<close> can raise after
  \<open>queue_remaining\<close> has been assigned.
\<close>

definition apply_queue_body ::
  "real \<Rightarrow> registry \<Rightarrow> string \<Rightarrow> jval option \<Rightarrow> registry + registry" where
  "apply_queue_body now servers addr body =
     (case body of
        None \<Rightarrow> Inl servers
      | Some data \<Rightarrow>
         (case map_of servers addr of
            None \<Rightarrow> Inl servers
          | Some status \<Rightarrow>
             (case get_default_list data ''queue_running'' of
                Inl _ \<Rightarrow> Inl servers
              | Inr running \<Rightarrow>
                 (case get_default_list data ''queue_pending'' of
                    Inl _ \<Rightarrow> Inl servers
                  | Inr pending \<Rightarrow>
                     (case py_len running of
                        Inl _ \<Rightarrow> Inl servers
                      | Inr n_running \<Rightarrow>
                         let status1 = status\<lparr>queue_remaining := n_running\<rparr> in
                         (case py_len pending of
                            Inl _ \<Rightarrow> Inl (dict_set addr status1 servers)
                          | Inr n_pending \<Rightarrow>
                             Inr (dict_set addr
                                   (status1\<lparr>queue_pending := n_pending, is_available := True,
                                      last_check_time := now, error_count := 0\<rparr>)
                                   servers)))))))"

definition update_server_status ::
  "int \<Rightarrow> real \<Rightarrow> registry \<Rightarrow> string \<Rightarrow> probe \<Rightarrow> py_error + registry" where
  "update_server_status mx now servers addr outcome =
     (case outcome of
        RequestFailed \<Rightarrow> mark_server_error mx servers addr
      | Response code body \<Rightarrow>
          if code = 200 then
            (case apply_queue_body now servers addr body of
               Inr servers' \<Rightarrow> Inr servers'
             | Inl servers' \<Rightarrow> mark_server_error mx servers' addr)
          else mark_server_error mx servers addr)"

text \<open>
  \<open>random.shuffle\<close> is the parameter \<open>shuffle\<close>. Python's \<open>list.sort\<close> is stable, as
  \<open>sort_key\<close> is. \<open>available_servers[0]\<close> raises on an empty list.
\<close>

definition get_best_server ::
  "((string \<times> ComfyUIServerStatus) list \<Rightarrow> (string \<times> ComfyUIServerStatus) list)
     \<Rightarrow> registry \<Rightarrow> py_error + string option" where
  "get_best_server shuffle servers =
     (let available_servers = filter (\<lambda>(addr, status). is_available status) servers in
      if available_servers = [] then
        (case servers of [] \<Rightarrow> Inr None | (addr, _) # _ \<Rightarrow> Inr (Some addr))
      else
        (case sort_key (\<lambda>x. total_load (snd x)) (shuffle available_servers) of
           [] \<Rightarrow> Inl IndexError
         | (best_server, _) # _ \<Rightarrow> Inr (Some best_server)))"

definition increment_task :: "registry \<Rightarrow> string \<Rightarrow> registry" where
  "increment_task servers addr =
     (case map_of servers addr of
        None \<Rightarrow> servers
      | Some status \<Rightarrow>
          dict_set addr (status\<lparr>current_tasks := current_tasks status + 1\<rparr>) servers)"

definition decrement_task :: "registry \<Rightarrow> string \<Rightarrow> registry" where
  "decrement_task servers addr =
     (case map_of servers addr of
        None \<Rightarrow> servers
      | Some status \<Rightarrow>
          dict_set addr (status\<lparr>current_tasks := max 0 (current_tasks status - 1)\<rparr>) servers)"

definition add_server :: "registry \<Rightarrow> string \<Rightarrow> registry" where
  "add_server servers addr =
     (case map_of servers addr of
        None \<Rightarrow> dict_set addr (new_status addr) servers
      | Some _ \<Rightarrow> servers)"

definition remove_server :: "registry \<Rightarrow> string \<Rightarrow> registry" where
  "remove_server servers addr =
     (case map_of servers addr of
        None \<Rightarrow> servers
      | Some _ \<Rightarrow> dict_del addr servers)"

text \<open>
  The operations that change the registry. A health check that raises (its address has
  been removed) leaves the registry as it was.
\<close>

datatype reg_op =
    AddServer string
  | RemoveServer string
  | HealthCheck string probe real
  | IncrementTask string
  | DecrementTask string

fun apply_op :: "int \<Rightarrow> reg_op \<Rightarrow> registry \<Rightarrow> registry" where
  "apply_op mx (AddServer a) servers = add_server servers a"
| "apply_op mx (RemoveServer a) servers = remove_server servers a"
| "apply_op mx (HealthCheck a outcome now) servers =
     (case update_server_status mx now servers a outcome of
        Inl _ \<Rightarrow> servers
      | Inr servers' \<Rightarrow> servers')"
| "apply_op mx (IncrementTask a) servers = increment_task servers a"
| "apply_op mx (DecrementTask a) servers = decrement_task servers a"

definition run_ops :: "int \<Rightarrow> reg_op list \<Rightarrow> registry \<Rightarrow> registry" where
  "run_ops mx ops servers = fold (apply_op mx) ops servers"

section \<open>Workflow rewriting (app/services/comfyui\_tool.py)\<close>

text \<open>Python's truth value of a JSON value, and \<open>a or b\<close>.\<close>

fun truthy :: "jval \<Rightarrow> bool" where
  "truthy JNull = False"
| "truthy (JBool b) = b"
| "truthy (JInt n) = (n \<noteq> 0)"
| "truthy (JStr s) = (s \<noteq> [])"
| "truthy (JList xs) = (xs \<noteq> [])"
| "truthy (JDict d) = (d \<noteq> [])"

definition py_or :: "jval \<Rightarrow> jval \<Rightarrow> jval" where
  "py_or a b = (if truthy a then a else b)"

text \<open>\<open>obj.get(key)\<close>: \<open>None\<close> for a missing key; only a dict has the method.\<close>

fun py_get :: "jval \<Rightarrow> string \<Rightarrow> py_error + jval" where
  "py_get (JDict d) key = Inr (case map_of d key of None \<Rightarrow> JNull | Some v \<Rightarrow> v)"
| "py_get _ key = Inl AttributeError"

text \<open>\<open>s.endswith(suf)\<close> and \<open>sub in s\<close> on strings.\<close>

definition endswith :: "string \<Rightarrow> string \<Rightarrow> bool" where
  "endswith s suf = (length suf \<le> length s \<and> drop (length s - length suf) s = suf)"

primrec str_contains :: "string \<Rightarrow> string \<Rightarrow> bool" where
  "str_contains sub [] = (sub = [])"
| "str_contains sub (c # cs) = (take (length sub) (c # cs) = sub \<or> str_contains sub cs)"

text \<open>The test on a string value of \<open>inputs\<close>, and the narrower one on a list element.\<close>

definition is_image_ref :: "string \<Rightarrow> bool" where
  "is_image_ref v = (endswith v ''.png'' \<or> endswith v ''.jpg'' \<or> str_contains ''pasted/'' v
     \<or> str_contains ''input'' v)"

definition is_image_item :: "string \<Rightarrow> bool" where
  "is_image_item item = (endswith item ''.png'' \<or> endswith item ''.jpg''
     \<or> str_contains ''pasted/'' item)"

text \<open>The inner loop over a list value: \<open>new_list\<close> and \<open>changed\<close>.\<close>

fun rewrite_item :: "string \<Rightarrow> jval \<Rightarrow> jval" where
  "rewrite_item filename (JStr item) = (if is_image_item item then JStr filename else JStr item)"
| "rewrite_item filename item = item"

fun item_matches :: "jval \<Rightarrow> bool" where
  "item_matches (JStr item) = is_image_item item"
| "item_matches _ = False"

text \<open>One round of \<open>for k, v in list(inputs.items())\<close>, on the dict being mutated.\<close>

fun rewrite_entry :: "string \<Rightarrow> string \<times> jval \<Rightarrow> (string, jval) dict \<Rightarrow> (string, jval) dict" where
  "rewrite_entry filename (k, JStr v) inputs =
     (if is_image_ref v then dict_set k (JStr filename) inputs else inputs)"
| "rewrite_entry filename (k, JList v) inputs =
     (let new_list = map (rewrite_item filename) v;
          changed = list_ex item_matches v
      in if changed then dict_set k (JList new_list) inputs else inputs)"
| "rewrite_entry filename (k, _) inputs = inputs"

text \<open>The loop over a snapshot of the entries, then the default for \<open>image\<close>.\<close>

definition rewrite_inputs :: "string \<Rightarrow> (string, jval) dict \<Rightarrow> (string, jval) dict" where
  "rewrite_inputs filename inputs =
     (let inputs1 = fold (rewrite_entry filename) inputs inputs
      in if map_of inputs1 ''image'' = None then dict_set ''image'' (JStr filename) inputs1
         else inputs1)"

text \<open>
  \<open>node.setdefault('inputs', {})\<close> on a node that is a dict: the value under \<open>inputs\<close>,
  the empty dict (stored in the node) when the key is missing.
\<close>

definition setdefault_inputs :: "(string, jval) dict \<Rightarrow> jval" where
  "setdefault_inputs node = (case map_of node ''inputs'' of None \<Rightarrow> JDict [] | Some v \<Rightarrow> v)"

text \<open>
  The body of the branch for node \<open>"10"\<close> (and of the loop of
  \<open>preload_full_workflow\<close>): \<open>inputs.items()\<close> raises when \<open>inputs\<close> is no dict. The dict
  mutated is the one the node holds.
\<close>

definition rewrite_node :: "string \<Rightarrow> (string, jval) dict \<Rightarrow> py_error + (string, jval) dict" where
  "rewrite_node filename node =
     (case setdefault_inputs node of
        JDict inputs \<Rightarrow> Inr (dict_set ''inputs'' (JDict (rewrite_inputs filename inputs)) node)
      | _ \<Rightarrow> Inl AttributeError)"

text \<open>
  The body of the fallback loop: both branches of its \<open>if\<close> assign \<open>inputs['image']\<close>.
  On a value that is no dict the membership test or the assignment raises.
\<close>

definition set_image :: "string \<Rightarrow> (string, jval) dict \<Rightarrow> py_error + (string, jval) dict" where
  "set_image filename node =
     (case setdefault_inputs node of
        JDict inputs \<Rightarrow>
          Inr (dict_set ''inputs'' (JDict (dict_set ''image'' (JStr filename) inputs)) node)
      | _ \<Rightarrow> Inl TypeError)"

text \<open>\<open>node.get('class_type') == 'LoadImage'\<close>.\<close>

definition is_load_image :: "jval \<Rightarrow> py_error + bool" where
  "is_load_image node =
     (case py_get node ''class_type'' of
        Inl e \<Rightarrow> Inl e
      | Inr c \<Rightarrow> Inr (c = JStr ''LoadImage''))"

text \<open>
  \<open>for nid, node in wf_copy.items()\<close> of the fallback: the first node of class
  \<open>LoadImage\<close> gets the filename and the loop breaks. The result is the workflow and
  \<open>replaced\<close>.
\<close>

fun fallback_scan ::
  "string \<Rightarrow> (string, jval) dict \<Rightarrow> (string, jval) dict \<Rightarrow> py_error + (string, jval) dict \<times> bool"
  where
  "fallback_scan filename [] wf_copy = Inr (wf_copy, False)"
| "fallback_scan filename ((nid, node) # rest) wf_copy =
     (case is_load_image node of
        Inl e \<Rightarrow> Inl e
      | Inr True \<Rightarrow>
         (case node of
            JDict nd \<Rightarrow>
              (case set_image filename nd of
                 Inl e \<Rightarrow> Inl e
               | Inr nd' \<Rightarrow> Inr (dict_set nid (JDict nd') wf_copy, True))
          | _ \<Rightarrow> Inl AttributeError)
      | Inr False \<Rightarrow> fallback_scan filename rest wf_copy)"

text \<open>
  The rewriting part of \<open>run_workflow_with_image\<close>, up to the warning: the workflow that
  is submitted and \<open>replaced\<close>. \<open>if node and ...\<close> skips a missing or falsy node
  \<open>"10"\<close> without calling \<open>get\<close> on it.
\<close>

definition target_node_id :: string where
  "target_node_id = ''10''"

definition rewrite_image ::
  "string \<Rightarrow> (string, jval) dict \<Rightarrow> py_error + (string, jval) dict \<times> bool" where
  "rewrite_image image_filename workflow =
     (let wf_copy = workflow;
          node = (case map_of wf_copy target_node_id of None \<Rightarrow> JNull | Some v \<Rightarrow> v)
      in case (if truthy node then is_load_image node else Inr False) of
           Inl e \<Rightarrow> Inl e
         | Inr True \<Rightarrow>
            (case node of
               JDict nd \<Rightarrow>
                 (case rewrite_node image_filename nd of
                    Inl e \<Rightarrow> Inl e
                  | Inr nd' \<Rightarrow> Inr (dict_set target_node_id (JDict nd') wf_copy, True))
             | _ \<Rightarrow> Inl AttributeError)
         | Inr False \<Rightarrow> fallback_scan image_filename wf_copy wf_copy)"

text \<open>
  The rewriting loop of \<open>preload_full_workflow\<close>: every node of class \<open>LoadImage\<close> is
  rewritten with the placeholder name.
\<close>

fun preload_scan ::
  "string \<Rightarrow> (string, jval) dict \<Rightarrow> (string, jval) dict \<Rightarrow> py_error + (string, jval) dict" where
  "preload_scan placeholder [] wf_copy = Inr wf_copy"
| "preload_scan placeholder ((nid, node) # rest) wf_copy =
     (case is_load_image node of
        Inl e \<Rightarrow> Inl e
      | Inr True \<Rightarrow>
         (case node of
            JDict nd \<Rightarrow>
              (case rewrite_node placeholder nd of
                 Inl e \<Rightarrow> Inl e
               | Inr nd' \<Rightarrow> preload_scan placeholder rest (dict_set nid (JDict nd') wf_copy))
          | _ \<Rightarrow> Inl AttributeError)
      | Inr False \<Rightarrow> preload_scan placeholder rest wf_copy)"

section \<open>Job driver (app/services/comfyui\_tool.py)\<close>

text \<open>
  What \<open>ws.recv()\<close> returns: a text frame with what \<open>json.loads\<close> makes of it
  (\<open>None\<close> when it raises), a binary frame, or an exception.
\<close>

datatype ws_frame = TextFrame "jval option" | BinaryFrame | RecvError

text \<open>\<open>obj.get(key, default)\<close>.\<close>

fun py_get_default :: "jval \<Rightarrow> string \<Rightarrow> jval \<Rightarrow> py_error + jval" where
  "py_get_default (JDict d) key dflt =
     Inr (case map_of d key of None \<Rightarrow> dflt | Some v \<Rightarrow> v)"
| "py_get_default _ key dflt = Inl AttributeError"

text \<open>
  The body of the loop of \<open>_wait_for_prompt_exec\<close> on one received frame:
  \<open>Some r\<close> when the function leaves the loop there (returning \<open>True\<close>, or raising),
  \<open>None\<close> when the loop goes on. \<open>data.get('node') is None\<close> is the test for
  \<open>JNull\<close>; the job identifier is compared with \<open>==\<close>.
\<close>

definition handle_message :: "jval \<Rightarrow> jval \<Rightarrow> (py_error + bool) option" where
  "handle_message prompt_id msg =
     (case py_get msg ''type'' of
        Inl e \<Rightarrow> Some (Inl e)
      | Inr mtype \<Rightarrow>
          if mtype = JStr ''progress'' then
            (case py_get_default msg ''data'' (JDict []) of
               Inl e \<Rightarrow> Some (Inl e)
             | Inr data \<Rightarrow>
                (case py_get data ''value'' of
                   Inl e \<Rightarrow> Some (Inl e)
                 | Inr _ \<Rightarrow> None))
          else if mtype = JStr ''executing'' then
            (case py_get_default msg ''data'' (JDict []) of
               Inl e \<Rightarrow> Some (Inl e)
             | Inr data \<Rightarrow>
                (case py_get data ''node'' of
                   Inl e \<Rightarrow> Some (Inl e)
                 | Inr node \<Rightarrow>
                    (case py_get data ''prompt_id'' of
                       Inl e \<Rightarrow> Some (Inl e)
                     | Inr pid \<Rightarrow>
                        if node = JNull \<and> py_eq pid prompt_id then Some (Inr True)
                        else None)))
          else None)"

fun process_frame :: "jval \<Rightarrow> ws_frame \<Rightarrow> (py_error + bool) option" where
  "process_frame prompt_id RecvError = Some (Inl TransportError)"
| "process_frame prompt_id BinaryFrame = None"
| "process_frame prompt_id (TextFrame None) = Some (Inl JSONDecodeError)"
| "process_frame prompt_id (TextFrame (Some msg)) = handle_message prompt_id msg"

text \<open>
  The loop \<open>while time.time() < deadline: out = ws.recv(); ...\<close>. The socket has no
  timeout, so \<open>recv\<close> returns only when the backend sends something. The backend's side
  is the list of the frames it sends, each with the clock reading of the loop test that
  precedes its receipt, and the reading \<open>t_end\<close> of the test after the last frame, after
  which the backend is silent. The result \<open>None\<close> is a call that never returns.
\<close>

fun wait_loop ::
  "jval \<Rightarrow> real \<Rightarrow> (real \<times> ws_frame) list \<Rightarrow> real \<Rightarrow> (py_error + bool) option" where
  "wait_loop prompt_id deadline [] t_end =
     (if t_end < deadline then None else Some (Inr False))"
| "wait_loop prompt_id deadline ((t, out) # rest) t_end =
     (if t < deadline then
        (case process_frame prompt_id out of
           Some r \<Rightarrow> Some r
         | None \<Rightarrow> wait_loop prompt_id deadline rest t_end)
      else Some (Inr False))"

datatype ws_state = NotConnected | Connected | Closed

text \<open>
  \<open>try: body finally: fin\<close> around a body that may not return: the \<open>finally\<close> block
  runs when the body returns or raises.
\<close>

definition try_finally :: "('s \<Rightarrow> 'r option \<times> 's) \<Rightarrow> ('s \<Rightarrow> 's) \<Rightarrow> 's \<Rightarrow> 'r option \<times> 's" where
  "try_finally body fin s =
     (case body s of
        (None, s') \<Rightarrow> (None, s')
      | (Some r, s') \<Rightarrow> (Some r, fin s'))"

text \<open>
  \<open>_wait_for_prompt_exec\<close>: \<open>conn\<close> is what \<open>create_connection\<close> does (an exception, or
  the backend's side of the socket), \<open>now\<close> the clock when the deadline is computed. The
  result comes with the state of the socket.
\<close>

definition wait_for_prompt_exec ::
  "jval \<Rightarrow> real \<Rightarrow> real \<Rightarrow> py_error + (real \<times> ws_frame) list \<times> real
     \<Rightarrow> (py_error + bool) option \<times> ws_state" where
  "wait_for_prompt_exec prompt_id timeout now conn =
     (case conn of
        Inl e \<Rightarrow> (Some (Inl e), NotConnected)
      | Inr (frames, t_end) \<Rightarrow>
          let deadline = now + timeout in
          try_finally (\<lambda>ws. (wait_loop prompt_id deadline frames t_end, ws))
            (\<lambda>ws. Closed) Connected)"

text \<open>
  What the network does for one tool: the answer to \<open>POST /prompt\<close> for a workflow,
  the socket of a watch, the clock at its start, the answers to \<open>GET /history\<close> and
  \<open>GET /view\<close>; and, for the preload, whether the placeholder file exists and whether
  creating it succeeds.
\<close>

record backend_io =
  queue_prompt :: "jval \<Rightarrow> py_error + jval"
  ws_connect :: "py_error + (real \<times> ws_frame) list \<times> real"
  clock :: real
  get_history :: "jval \<Rightarrow> py_error + jval"
  get_image_bytes :: "jval \<Rightarrow> jval \<Rightarrow> jval \<Rightarrow> py_error + string"
  placeholder_exists :: bool
  create_placeholder_image :: bool

text \<open>\<open>resp.get('prompt_id') or resp.get('id') or resp.get('request_id')\<close>.\<close>

definition get_prompt_id :: "jval \<Rightarrow> py_error + jval" where
  "get_prompt_id resp =
     (case py_get resp ''prompt_id'' of
        Inl e \<Rightarrow> Inl e
      | Inr a \<Rightarrow>
         (case py_get resp ''id'' of
            Inl e \<Rightarrow> Inl e
          | Inr b \<Rightarrow>
             (case py_get resp ''request_id'' of
                Inl e \<Rightarrow> Inl e
              | Inr c \<Rightarrow> Inr (py_or (py_or a b) c))))"

text \<open>
  The common tail of \<open>run_workflow_with_image\<close> and \<open>run_workflow_with_video\<close>: submit,
  watch, fetch the history. The result is \<open>prompt_id\<close> and \<open>history\<close>.
\<close>

definition submit_and_fetch ::
  "backend_io \<Rightarrow> jval \<Rightarrow> real \<Rightarrow> (py_error + jval \<times> jval) option" where
  "submit_and_fetch io wf_copy timeout =
     (case queue_prompt io wf_copy of
        Inl e \<Rightarrow> Some (Inl e)
      | Inr resp \<Rightarrow>
         (case get_prompt_id resp of
            Inl e \<Rightarrow> Some (Inl e)
          | Inr prompt_id \<Rightarrow>
              if \<not> truthy prompt_id then Some (Inl RuntimeError)
              else
                (case fst (wait_for_prompt_exec prompt_id timeout (clock io) (ws_connect io)) of
                   None \<Rightarrow> None
                 | Some (Inl e) \<Rightarrow> Some (Inl e)
                 | Some (Inr ok) \<Rightarrow>
                     if \<not> ok then Some (Inl RuntimeError)
                     else
                       (case get_history io prompt_id of
                          Inl e \<Rightarrow> Some (Inl e)
                        | Inr history \<Rightarrow> Some (Inr (prompt_id, history))))))"

text \<open>
  \<open>run_workflow_with_image\<close>. A workflow that is no dict has no \<open>get\<close>. A graph
  without a \<open>LoadImage\<close> node is submitted as it is, after a warning.
\<close>

definition run_workflow_with_image ::
  "backend_io \<Rightarrow> jval \<Rightarrow> string \<Rightarrow> real \<Rightarrow> (py_error + jval \<times> jval) option" where
  "run_workflow_with_image io workflow image_filename timeout =
     (case workflow of
        JDict nodes \<Rightarrow>
          (case rewrite_image image_filename nodes of
             Inl e \<Rightarrow> Some (Inl e)
           | Inr (wf_copy, replaced) \<Rightarrow> submit_and_fetch io (JDict wf_copy) timeout)
      | _ \<Rightarrow> Some (Inl AttributeError))"

text \<open>
  \<open>preload_full_workflow\<close>: every exception is caught and reported in the result. The
  result is \<open>(ok, info)\<close> and the tool's \<open>preloaded\<close> flag.
\<close>

datatype preload_info = EmptyWorkflow | PlaceholderFailed | NoPromptId jval
  | PreloadTimeout jval | Preloaded jval | PreloadException py_error

definition preload_placeholder_name :: string where
  "preload_placeholder_name = ''preload_white.png''"

definition preload_full_workflow ::
  "backend_io \<Rightarrow> bool \<Rightarrow> jval \<Rightarrow> real \<Rightarrow> ((bool \<times> preload_info) \<times> bool) option" where
  "preload_full_workflow io preloaded workflow timeout =
     (if \<not> truthy workflow then Some ((False, EmptyWorkflow), preloaded)
      else if \<not> placeholder_exists io \<and> \<not> create_placeholder_image io
        then Some ((False, PlaceholderFailed), preloaded)
      else
        (case (case workflow of JDict nodes \<Rightarrow> preload_scan preload_placeholder_name nodes nodes
                | _ \<Rightarrow> Inl AttributeError) of
           Inl e \<Rightarrow> Some ((False, PreloadException e), preloaded)
         | Inr wf_copy \<Rightarrow>
            (case queue_prompt io (JDict wf_copy) of
               Inl e \<Rightarrow> Some ((False, PreloadException e), preloaded)
             | Inr resp \<Rightarrow>
                (case get_prompt_id resp of
                   Inl e \<Rightarrow> Some ((False, PreloadException e), preloaded)
                 | Inr prompt_id \<Rightarrow>
                     if \<not> truthy prompt_id then Some ((False, NoPromptId resp), preloaded)
                     else
                       (case fst (wait_for_prompt_exec prompt_id timeout (clock io)
                                    (ws_connect io)) of
                          None \<Rightarrow> None
                        | Some (Inl e) \<Rightarrow> Some ((False, PreloadException e), preloaded)
                        | Some (Inr ok) \<Rightarrow>
                            if \<not> ok then Some ((False, PreloadTimeout resp), preloaded)
                            else Some ((True, Preloaded prompt_id), True))))))"

section \<open>Tool pool (app/services/tool\_pool.py)\<close>

text \<open>
  \<open>ComfyUITool\<close>: \<open>tool_address\<close> is its \<open>server_address\<close>, \<open>tool_workflow\<close> its
  \<open>workflow\<close> (\<open>JNull\<close> for \<open>None\<close>). The pool's \<open>workflow\<close> is \<open>pool_workflow\<close>.
\<close>

record ComfyUITool =
  tool_address :: string
  client_id :: string
  tool_workflow :: jval
  preloaded :: bool

record ComfyUIToolPool =
  tools :: "(string, ComfyUITool) dict"
  pool_workflow :: jval
  current_template :: "string option"

text \<open>\<open>ComfyUITool.__init__\<close>; \<open>uuid\<close> gives the identifier drawn for an address.\<close>

definition new_tool :: "(string \<Rightarrow> string) \<Rightarrow> string \<Rightarrow> ComfyUITool" where
  "new_tool uuid addr =
     \<lparr>tool_address = addr, client_id = uuid addr, tool_workflow = JNull, preloaded = False\<rparr>"

definition init_pool :: "(string \<Rightarrow> string) \<Rightarrow> registry \<Rightarrow> ComfyUIToolPool" where
  "init_pool uuid servers =
     \<lparr>tools = fold (\<lambda>addr ts. dict_set addr (new_tool uuid addr) ts) (map fst servers) [],
      pool_workflow = JNull, current_template = None\<rparr>"

text \<open>
  \<open>get_tool_for_request\<close>: the tool of the best server, made on the spot when the pool
  has none for it, with the pool's workflow copied into it. \<open>if not best_server\<close> also
  refuses the empty address.
\<close>

definition get_tool_for_request ::
  "((string \<times> ComfyUIServerStatus) list \<Rightarrow> (string \<times> ComfyUIServerStatus) list)
     \<Rightarrow> (string \<Rightarrow> string) \<Rightarrow> registry \<Rightarrow> ComfyUIToolPool
     \<Rightarrow> py_error + ComfyUITool \<times> ComfyUIToolPool" where
  "get_tool_for_request shuffle uuid servers pool =
     (case get_best_server shuffle servers of
        Inl e \<Rightarrow> Inl e
      | Inr None \<Rightarrow> Inl RuntimeError
      | Inr (Some best_server) \<Rightarrow>
          if best_server = [] then Inl RuntimeError
          else
            let tool = (case map_of (tools pool) best_server of
                          None \<Rightarrow> new_tool uuid best_server
                        | Some t \<Rightarrow> t);
                tool' = (if truthy (pool_workflow pool)
                         then tool\<lparr>tool_workflow := pool_workflow pool\<rparr> else tool)
            in Inr (tool', pool\<lparr>tools := dict_set best_server tool' (tools pool)\<rparr>))"

definition load_workflow :: "ComfyUIToolPool \<Rightarrow> jval \<Rightarrow> string \<Rightarrow> ComfyUIToolPool" where
  "load_workflow pool wflow template_name =
     pool\<lparr>pool_workflow := wflow, current_template := Some template_name,
          tools := map (\<lambda>(addr, tool). (addr, tool\<lparr>tool_workflow := wflow\<rparr>)) (tools pool)\<rparr>"

text \<open>
  The futures of \<open>preload_all_servers\<close>, collected in the order of the pool's tools: the
  results by address and the tools with their \<open>preloaded\<close> flags. \<open>future.result()\<close>
  does not return while its preload does not.
\<close>

fun preload_each ::
  "(string \<Rightarrow> backend_io) \<Rightarrow> jval \<Rightarrow> real \<Rightarrow> (string, ComfyUITool) dict
     \<Rightarrow> ((string, bool \<times> preload_info) dict \<times> (string, ComfyUITool) dict) option" where
  "preload_each io wflow timeout [] = Some ([], [])"
| "preload_each io wflow timeout ((addr, tool) # rest) =
     (case preload_full_workflow (io addr) (preloaded tool) wflow timeout of
        None \<Rightarrow> None
      | Some (result, flag) \<Rightarrow>
         (case preload_each io wflow timeout rest of
            None \<Rightarrow> None
          | Some (results, rest') \<Rightarrow>
              Some ((addr, result) # results, (addr, tool\<lparr>preloaded := flag\<rparr>) # rest')))"

text \<open>
  \<open>preload_all_servers\<close>: \<open>ThreadPoolExecutor(max_workers=0)\<close> raises \<open>ValueError\<close>, so
  an empty pool raises.
\<close>

definition preload_all_servers ::
  "(string \<Rightarrow> backend_io) \<Rightarrow> ComfyUIToolPool \<Rightarrow> jval \<Rightarrow> real
     \<Rightarrow> (py_error + (string, bool \<times> preload_info) dict \<times> ComfyUIToolPool) option" where
  "preload_all_servers io pool wflow timeout =
     (if tools pool = [] then Some (Inl ValueError)
      else
        (case preload_each io wflow timeout (tools pool) of
           None \<Rightarrow> None
         | Some (results, tools') \<Rightarrow> Some (Inr (results, pool\<lparr>tools := tools'\<rparr>))))"

text \<open>\<open>ComfyUIToolPool.add_server\<close>, on the registry and the pool.\<close>

definition pool_add_server ::
  "(string \<Rightarrow> string) \<Rightarrow> registry \<times> ComfyUIToolPool \<Rightarrow> string \<Rightarrow> registry \<times> ComfyUIToolPool" where
  "pool_add_server uuid st addr =
     (let servers' = add_server (fst st) addr; pool = snd st
      in case map_of (tools pool) addr of
           Some _ \<Rightarrow> (servers', pool)
         | None \<Rightarrow>
             let tool = new_tool uuid addr;
                 tool' = (if truthy (pool_workflow pool)
                          then tool\<lparr>tool_workflow := pool_workflow pool\<rparr> else tool)
             in (servers', pool\<lparr>tools := dict_set addr tool' (tools pool)\<rparr>))"

section \<open>Template loading (app/routers/templates.py)\<close>

text \<open>
  An exception that leaves a handler: an \<open>HTTPException\<close> with its status code and the
  fixed part of its detail, or any other exception.
\<close>

datatype exn = HTTPException nat string | Raised py_error

definition image_template_dir :: string where
  "image_template_dir = ''./workflows/image''"

definition video_template_dir :: string where
  "video_template_dir = ''./workflows/video''"

text \<open>
  The response of \<open>load_template\<close>: \<open>status\<close>, \<open>info\<close> (the results of the preload, or
  the note that there was none) and \<open>mode\<close>.
\<close>

datatype load_info = PreloadResults "(string, bool \<times> preload_info) dict" | NoPreload

datatype load_template_response = LoadTemplateResponse string load_info string

text \<open>
  \<open>load_template\<close>. \<open>read_template dir name\<close> is the template file: \<open>None\<close> when the
  path does not exist, else what \<open>open\<close> and \<open>json.load\<close> give. The result comes with
  the pool, which holds the new workflow from \<open>load_workflow\<close> on.
\<close>

definition load_template ::
  "(string \<Rightarrow> string \<Rightarrow> (py_error + jval) option) \<Rightarrow> (string \<Rightarrow> backend_io) \<Rightarrow> real
     \<Rightarrow> ComfyUIToolPool \<Rightarrow> string \<Rightarrow> string
     \<Rightarrow> (exn + load_template_response) option \<times> ComfyUIToolPool" where
  "load_template read_template io preload_timeout pool template mode =
     (let template_dir = (if mode = ''video'' then video_template_dir else image_template_dir)
      in case read_template template_dir template of
           None \<Rightarrow> (Some (Inl (HTTPException 404 ''Template not found'')), pool)
         | Some (Inl e) \<Rightarrow> (Some (Inl (Raised e)), pool)
         | Some (Inr wflow) \<Rightarrow>
             if \<not> truthy wflow
             then (Some (Inl (HTTPException 500 ''Failed to load workflow'')), pool)
             else
               let pool1 = load_workflow pool wflow template in
               if mode = ''image'' then
                 (case preload_all_servers io pool1 wflow preload_timeout of
                    None \<Rightarrow> (None, pool1)
                  | Some (Inl e) \<Rightarrow> (Some (Inl (Raised e)), pool1)
                  | Some (Inr (results, pool2)) \<Rightarrow>
                      let success_count = length (filter (\<lambda>(addr, ok, _). ok) results) in
                      if success_count = 0
                      then (Some (Inl (HTTPException 500 ''Preload failed on all servers'')),
                            pool2)
                      else (Some (Inr (LoadTemplateResponse ''success''
                                         (PreloadResults results) mode)), pool2))
               else (Some (Inr (LoadTemplateResponse ''success'' NoPreload mode)), pool1))"

section \<open>The registry and the pool together\<close>

text \<open>
  The calls that change which backends exist, as the routers make them:
  \<open>/servers/add\<close> goes through the pool, \<open>/servers/remove\<close> only to the load balancer,
  a request asks the pool for a tool, a template load replaces the workflow; the health
  check and the task counters work on the registry alone.
\<close>

datatype app_op =
    AddBackend string
  | RemoveBackend string
  | Request
  | LoadWorkflow jval string
  | Probe string probe real
  | TaskStarted string
  | TaskEnded string

fun app_step ::
  "((string \<times> ComfyUIServerStatus) list \<Rightarrow> (string \<times> ComfyUIServerStatus) list)
     \<Rightarrow> (string \<Rightarrow> string) \<Rightarrow> int \<Rightarrow> app_op \<Rightarrow> registry \<times> ComfyUIToolPool
     \<Rightarrow> registry \<times> ComfyUIToolPool" where
  "app_step shuffle uuid mx (AddBackend a) st = pool_add_server uuid st a"
| "app_step shuffle uuid mx (RemoveBackend a) st = (remove_server (fst st) a, snd st)"
| "app_step shuffle uuid mx Request st =
     (case get_tool_for_request shuffle uuid (fst st) (snd st) of
        Inl _ \<Rightarrow> st
      | Inr (_, pool') \<Rightarrow> (fst st, pool'))"
| "app_step shuffle uuid mx (LoadWorkflow w name) st = (fst st, load_workflow (snd st) w name)"
| "app_step shuffle uuid mx (Probe a outcome now) st =
     (apply_op mx (HealthCheck a outcome now) (fst st), snd st)"
| "app_step shuffle uuid mx (TaskStarted a) st = (increment_task (fst st) a, snd st)"
| "app_step shuffle uuid mx (TaskEnded a) st = (decrement_task (fst st) a, snd st)"

text \<open>app/main.py: the load balancer of the configured addresses, and its pool.\<close>

definition app_init :: "(string \<Rightarrow> string) \<Rightarrow> string list \<Rightarrow> registry \<times> ComfyUIToolPool" where
  "app_init uuid addrs = (init_servers addrs, init_pool uuid (init_servers addrs))"

section \<open>Request handlers (app/routers/images.py, app/routers/videos.py)\<close>

text \<open>
  The load balancer and the pool that the routers share, with a log of the calls of
  \<open>increment_task\<close> and \<open>decrement_task\<close>.
\<close>

datatype task_event = Incremented string | Decremented string

record app_state =
  app_servers :: registry
  app_pool :: ComfyUIToolPool
  app_log :: "task_event list"

definition lb_increment_task :: "app_state \<Rightarrow> string \<Rightarrow> app_state" where
  "lb_increment_task app addr =
     app\<lparr>app_servers := increment_task (app_servers app) addr,
         app_log := app_log app @ [Incremented addr]\<rparr>"

definition lb_decrement_task :: "app_state \<Rightarrow> string \<Rightarrow> app_state" where
  "lb_decrement_task app addr =
     app\<lparr>app_servers := decrement_task (app_servers app) addr,
         app_log := app_log app @ [Decremented addr]\<rparr>"

text \<open>
  What surrounds one request: the template files, whether saving the upload and copying
  it to the input directory raise, the generated file name, the shuffle and the
  identifiers the pool draws, the network of each backend, the workflow timeout
  (\<open>settings.workflow_timeout\<close> for an image, \<open>settings.video_workflow_timeout\<close> for
  a video), what PIL makes of the bytes of an image (its PNG in base64, or an exception),
  whether writing the processed file raises, and the lower-cased name of the upload. The
  upload is a required form field, so the test \<open>image is None\<close> never holds.
\<close>

record request_io =
  rq_read_template :: "string \<Rightarrow> string \<Rightarrow> (py_error + jval) option"
  rq_save_upload :: "py_error option"
  rq_copy_to_input :: "py_error option"
  rq_unique_filename :: string
  rq_shuffle :: "(string \<times> ComfyUIServerStatus) list \<Rightarrow> (string \<times> ComfyUIServerStatus) list"
  rq_uuid :: "string \<Rightarrow> string"
  rq_backend :: "string \<Rightarrow> backend_io"
  rq_timeout :: real
  rq_decode_image :: "string \<Rightarrow> py_error + string"
  rq_write_processed :: "string \<Rightarrow> py_error option"
  rq_upload_name_lower :: string

text \<open>The response: \<open>server_used\<close> and the processed medium in base64, if any.\<close>

datatype process_response = ProcessResponse string "string option"

text \<open>The reload of the template when it differs from the current one.\<close>

definition reload_template ::
  "request_io \<Rightarrow> ComfyUIToolPool \<Rightarrow> string \<Rightarrow> string \<Rightarrow> exn + ComfyUIToolPool" where
  "reload_template rq pool template mode =
     (if current_template pool = Some template then Inr pool
      else
        let template_dir = (if mode = ''video'' then video_template_dir else image_template_dir)
        in case rq_read_template rq template_dir template of
             None \<Rightarrow> Inl (HTTPException 404 ''Template not found'')
           | Some (Inl e) \<Rightarrow> Inl (Raised e)
           | Some (Inr wflow) \<Rightarrow>
               if \<not> truthy wflow then Inl (HTTPException 500 ''Failed to load workflow'')
               else Inr (load_workflow pool wflow template))"

text \<open>
  The node outputs that the extraction loop visits: those of
  \<open>history_map[prompt_id]['outputs']\<close>, none when the guard
  \<open>isinstance(history_map, dict) and prompt_id in history_map\<close> fails. The keys of a
  parsed JSON object are strings; a list or a dict cannot be looked up (not hashable).
\<close>

definition history_outputs :: "jval \<Rightarrow> jval \<Rightarrow> py_error + jval list" where
  "history_outputs history_map prompt_id =
     (case history_map of
        JDict h \<Rightarrow>
          (case prompt_id of
             JStr p \<Rightarrow>
               (case map_of h p of
                  None \<Rightarrow> Inr []
                | Some prompt_hist \<Rightarrow>
                    (case py_get_default prompt_hist ''outputs'' (JDict []) of
                       Inl e \<Rightarrow> Inl e
                     | Inr (JDict outputs) \<Rightarrow> Inr (map snd outputs)
                     | Inr _ \<Rightarrow> Inl AttributeError))
           | JList _ \<Rightarrow> Inl TypeError
           | JDict _ \<Rightarrow> Inl TypeError
           | _ \<Rightarrow> Inr [])
      | _ \<Rightarrow> Inr [])"

text \<open>\<open>node_output.get('images')\<close>, and \<open>node_output.get('videos') or node_output.get('gifs')\<close>.\<close>

definition images_meta :: "jval \<Rightarrow> py_error + jval" where
  "images_meta node_output = py_get node_output ''images''"

definition videos_meta :: "jval \<Rightarrow> py_error + jval" where
  "videos_meta node_output =
     (case py_get node_output ''videos'' of
        Inl e \<Rightarrow> Inl e
      | Inr v \<Rightarrow> if truthy v then Inr v else py_get node_output ''gifs'')"

definition dget :: "(string, jval) dict \<Rightarrow> string \<Rightarrow> jval" where
  "dget d key = (case map_of d key of None \<Rightarrow> JNull | Some v \<Rightarrow> v)"

text \<open>
  The extraction loop: the bytes of the first element of the first metadata list that
  is a non-empty list starting with an object; the loop breaks on non-empty bytes.
\<close>

fun fetch_first ::
  "(jval \<Rightarrow> py_error + jval) \<Rightarrow> backend_io \<Rightarrow> jval list \<Rightarrow> string option
     \<Rightarrow> py_error + string option" where
  "fetch_first meta io [] acc = Inr acc"
| "fetch_first meta io (node_output # rest) acc =
     (case meta node_output of
        Inl e \<Rightarrow> Inl e
      | Inr (JList (JDict first # _)) \<Rightarrow>
          (case get_image_bytes io (dget first ''filename'') (dget first ''subfolder'')
                  (dget first ''type'') of
             Inl e \<Rightarrow> Inl e
           | Inr bytes \<Rightarrow>
               if bytes \<noteq> [] then Inr (Some bytes) else fetch_first meta io rest (Some bytes))
      | Inr _ \<Rightarrow> fetch_first meta io rest acc)"

text \<open>
  The inner \<open>try\<close> block of \<open>process_image\<close>, for the tool bound to the request:
  \<open>None\<close> when the block never ends (the watch is blocked), else the exception that
  leaves it or the response it returns.
\<close>

definition image_body ::
  "request_io \<Rightarrow> ComfyUITool \<Rightarrow> (exn + process_response) option" where
  "image_body rq comfy_tool =
     (let server_addr = tool_address comfy_tool; io = rq_backend rq server_addr in
      if \<not> truthy (tool_workflow comfy_tool)
      then Some (Inl (HTTPException 500 ''Workflow not loaded''))
      else
        (case run_workflow_with_image io (tool_workflow comfy_tool) (rq_unique_filename rq)
                (rq_timeout rq) of
           None \<Rightarrow> None
         | Some (Inl e) \<Rightarrow> Some (Inl (Raised e))
         | Some (Inr (prompt_id, history_map)) \<Rightarrow>
            (case history_outputs history_map prompt_id of
               Inl e \<Rightarrow> Some (Inl (Raised e))
             | Inr outputs \<Rightarrow>
                (case fetch_first images_meta io outputs None of
                   Inl e \<Rightarrow> Some (Inl (Raised e))
                 | Inr None \<Rightarrow> Some (Inr (ProcessResponse server_addr None))
                 | Inr (Some images_bytes) \<Rightarrow>
                     if images_bytes = [] then Some (Inr (ProcessResponse server_addr None))
                     else
                       (case rq_decode_image rq images_bytes of
                          Inl e \<Rightarrow> Some (Inl (Raised e))
                        | Inr img_base64 \<Rightarrow>
                           (case rq_write_processed rq images_bytes of
                              Some e \<Rightarrow> Some (Inl (Raised e))
                            | None \<Rightarrow>
                                Some (Inr (ProcessResponse server_addr
                                             (Some img_base64)))))))))"

text \<open>The inner \<open>try\<close> block of \<open>process_video\<close>; the bytes are sent as they are.\<close>

definition video_body ::
  "request_io \<Rightarrow> ComfyUITool \<Rightarrow> (exn + process_response) option" where
  "video_body rq comfy_tool =
     (let server_addr = tool_address comfy_tool; io = rq_backend rq server_addr in
      if \<not> truthy (tool_workflow comfy_tool)
      then Some (Inl (HTTPException 500 ''Workflow not loaded''))
      else
        (case run_workflow_with_image io (tool_workflow comfy_tool) (rq_unique_filename rq)
                (rq_timeout rq) of
           None \<Rightarrow> None
         | Some (Inl e) \<Rightarrow> Some (Inl (Raised e))
         | Some (Inr (prompt_id, history_map)) \<Rightarrow>
            (case history_outputs history_map prompt_id of
               Inl e \<Rightarrow> Some (Inl (Raised e))
             | Inr outputs \<Rightarrow>
                (case fetch_first videos_meta io outputs None of
                   Inl e \<Rightarrow> Some (Inl (Raised e))
                 | Inr None \<Rightarrow> Some (Inr (ProcessResponse server_addr None))
                 | Inr (Some video_bytes) \<Rightarrow>
                     if video_bytes = [] then Some (Inr (ProcessResponse server_addr None))
                     else
                       (case rq_write_processed rq video_bytes of
                          Some e \<Rightarrow> Some (Inl (Raised e))
                        | None \<Rightarrow>
                            Some (Inr (ProcessResponse server_addr (Some video_bytes))))))))"

text \<open>
  The outer \<open>try\<close> of both handlers: bind a tool, count the task, run the inner block
  under \<open>finally: load_balancer.decrement_task(server_addr)\<close>, and turn any exception
  into the 500 \<open>HTTPException\<close>.
\<close>

definition dispatch ::
  "request_io \<Rightarrow> (ComfyUITool \<Rightarrow> (exn + process_response) option) \<Rightarrow> app_state
     \<Rightarrow> (exn + process_response) option \<times> app_state" where
  "dispatch rq body app =
     (case get_tool_for_request (rq_shuffle rq) (rq_uuid rq) (app_servers app) (app_pool app) of
        Inl e \<Rightarrow> (Some (Inl (HTTPException 500 ''Processing error'')), app)
      | Inr (comfy_tool, pool') \<Rightarrow>
          let server_addr = tool_address comfy_tool;
              app1 = lb_increment_task (app\<lparr>app_pool := pool'\<rparr>) server_addr
          in (case try_finally (\<lambda>s. (body comfy_tool, s))
                     (\<lambda>s. lb_decrement_task s server_addr) app1 of
                (None, s) \<Rightarrow> (None, s)
              | (Some (Inl e), s) \<Rightarrow>
                  (Some (Inl (HTTPException 500 ''Processing error'')), s)
              | (Some (Inr response), s) \<Rightarrow> (Some (Inr response), s)))"

definition process_image ::
  "request_io \<Rightarrow> app_state \<Rightarrow> string \<Rightarrow> string \<Rightarrow> (exn + process_response) option \<times> app_state"
  where
  "process_image rq app template mode =
     (case reload_template rq (app_pool app) template mode of
        Inl e \<Rightarrow> (Some (Inl e), app)
      | Inr pool1 \<Rightarrow>
          let app1 = app\<lparr>app_pool := pool1\<rparr> in
          (case rq_save_upload rq of
             Some e \<Rightarrow> (Some (Inl (Raised e)), app1)
           | None \<Rightarrow>
              (case rq_copy_to_input rq of
                 Some e \<Rightarrow> (Some (Inl (HTTPException 500 ''Failed to copy to input dir'')), app1)
               | None \<Rightarrow> dispatch rq (image_body rq) app1)))"

definition process_video ::
  "request_io \<Rightarrow> app_state \<Rightarrow> string \<Rightarrow> string \<Rightarrow> (exn + process_response) option \<times> app_state"
  where
  "process_video rq app template mode =
     (if \<not> (endswith (rq_upload_name_lower rq) ''.png''
            \<or> endswith (rq_upload_name_lower rq) ''.jpg''
            \<or> endswith (rq_upload_name_lower rq) ''.jpeg''
            \<or> endswith (rq_upload_name_lower rq) ''.webp'')
      then (Some (Inl (HTTPException 400 ''Unsupported image format'')), app)
      else
        (case reload_template rq (app_pool app) template mode of
           Inl e \<Rightarrow> (Some (Inl e), app)
         | Inr pool1 \<Rightarrow>
             let app1 = app\<lparr>app_pool := pool1\<rparr> in
             (case rq_save_upload rq of
                Some e \<Rightarrow> (Some (Inl (Raised e)), app1)
              | None \<Rightarrow>
                 (case rq_copy_to_input rq of
                    Some e \<Rightarrow>
                      (Some (Inl (HTTPException 500 ''Failed to copy to input dir'')), app1)
                  | None \<Rightarrow> dispatch rq (video_body rq) app1))))"

section \<open>Predicates of the properties\<close>

text \<open>A property of every status record of a registry.\<close>

definition all_status :: "(ComfyUIServerStatus \<Rightarrow> bool) \<Rightarrow> registry \<Rightarrow> bool" where
  "all_status P servers = (\<forall>(a, s) \<in> set servers. P s)"

text \<open>The counter is never negative.\<close>

abbreviation tasks_ok :: "ComfyUIServerStatus \<Rightarrow> bool" where
  "tasks_ok s \<equiv> 0 \<le> current_tasks s"

text \<open>
  A backend is unavailable only while its error count is at the threshold: the
  availability flag falls only in \<open>mark_server_error\<close>, and the count is reset only
  together with the flag.
\<close>

abbreviation avail_ok :: "int \<Rightarrow> ComfyUIServerStatus \<Rightarrow> bool" where
  "avail_ok mx s \<equiv> is_available s \<or> mx \<le> error_count s"

text \<open>
  What one round of the loop of the node-\<open>"10"\<close> branch leaves under a key whose value
  was \<open>v\<close>: the two branches of its \<open>if\<close>, the list branch with the elements of
  \<open>new_list\<close>.
\<close>

fun rewrite_value :: "string \<Rightarrow> jval \<Rightarrow> jval" where
  "rewrite_value filename (JStr v) = (if is_image_ref v then JStr filename else JStr v)"
| "rewrite_value filename (JList v) = JList (map (rewrite_item filename) v)"
| "rewrite_value filename v = v"

text \<open>A node that is a JSON object, and one whose \<open>class_type\<close> is \<open>LoadImage\<close>.\<close>

fun is_dict :: "jval \<Rightarrow> bool" where
  "is_dict (JDict d) = True"
| "is_dict _ = False"

fun node_is_load_image :: "jval \<Rightarrow> bool" where
  "node_is_load_image (JDict nd) = (map_of nd ''class_type'' = Some (JStr ''LoadImage''))"
| "node_is_load_image _ = False"

text \<open>Node \<open>"10"\<close> is missing, or is an object of another class.\<close>

definition skips_preferred :: "(string, jval) dict \<Rightarrow> bool" where
  "skips_preferred graph =
     (case map_of graph ''10'' of None \<Rightarrow> True
      | Some n \<Rightarrow> is_dict n \<and> \<not> node_is_load_image n)"

text \<open>
  A frame that the loop reads and goes past: the deadline test before its receipt
  succeeds, and the frame ends nothing.
\<close>

definition passes :: "jval \<Rightarrow> real \<Rightarrow> real \<times> ws_frame \<Rightarrow> bool" where
  "passes prompt_id deadline ev = (fst ev < deadline \<and> process_frame prompt_id (snd ev) = None)"

text \<open>
  The completion signal for a job: an object with \<open>type\<close> \<open>executing\<close> whose \<open>data\<close> is
  an object with \<open>node\<close> null (or missing, which \<open>get\<close> reads as \<open>None\<close>) and
  \<open>prompt_id\<close> the job's identifier.
\<close>

fun is_completion :: "string \<Rightarrow> jval \<Rightarrow> bool" where
  "is_completion job_id (JDict d) =
     (map_of d ''type'' = Some (JStr ''executing'') \<and>
      (case map_of d ''data'' of
         Some (JDict data) \<Rightarrow>
           (map_of data ''node'' = None \<or> map_of data ''node'' = Some JNull)
           \<and> map_of data ''prompt_id'' = Some (JStr job_id)
       | _ \<Rightarrow> False))"
| "is_completion job_id _ = False"

text \<open>Every backend of the registry has a tool in the pool.\<close>

definition covered :: "registry \<times> ComfyUIToolPool \<Rightarrow> bool" where
  "covered st = (fst ` set (fst st) \<subseteq> fst ` set (tools (snd st)))"

text \<open>
  What a handler does to the task accounting, from the state \<open>app\<close> to its result: it
  ends without having counted a task; or it ends after exactly one \<open>increment_task\<close>
  followed by exactly one \<open>decrement_task\<close> on the same backend; or it never ends (the
  watch is blocked on a silent backend), after one \<open>increment_task\<close>.
\<close>

definition bracketed ::
  "app_state \<Rightarrow> (exn + process_response) option \<times> app_state \<Rightarrow> bool" where
  "bracketed app r =
     (case r of (res, app') \<Rightarrow>
        (app_log app' = app_log app \<and> app_servers app' = app_servers app \<and> res \<noteq> None)
      \<or> (\<exists>b. app_log app' = app_log app @ [Incremented b, Decremented b]
              \<and> app_servers app' = decrement_task (increment_task (app_servers app) b) b
              \<and> res \<noteq> None)
      \<or> (\<exists>b. app_log app' = app_log app @ [Incremented b]
              \<and> app_servers app' = increment_task (app_servers app) b
              \<and> res = None))"

section \<open>Dictionaries\<close>

lemma map_of_dict_set: "map_of (dict_set k v d) = (map_of d)(k \<mapsto> v)"
  by (induction d) (auto simp: fun_eq_iff)

lemma keys_dict_set:
  "map fst (dict_set k v d) = (if k \<in> fst ` set d then map fst d else map fst d @ [k])"
  by (induction d) auto

lemma distinct_dict_set: "distinct (map fst d) \<Longrightarrow> distinct (map fst (dict_set k v d))"
  by (simp add: keys_dict_set)

lemma set_dict_set_subset: "set (dict_set k v d) \<subseteq> insert (k, v) (set d)"
  by (induction d) auto

lemma dict_set_same: "map_of d k = Some v \<Longrightarrow> dict_set k v d = d"
  by (induction d) (auto split: if_splits)

lemma map_of_dict_del: "map_of (dict_del k d) = (map_of d)(k := None)"
  by (induction d) (auto simp: dict_del_def fun_eq_iff)

lemma dict_del_absent: "map_of d k = None \<Longrightarrow> dict_del k d = d"
  by (induction d) (auto simp: dict_del_def split: if_splits)

lemma set_dict_del_subset: "set (dict_del k d) \<subseteq> set d"
  by (auto simp: dict_del_def)

section \<open>Task accounting\<close>

text \<open>
  C10: \<open>increment_task\<close> and \<open>decrement_task\<close> on an address that the registry does not
  hold return the registry unchanged (the functions have no error result: the guard
  \<open>if server_address in self.servers\<close> is their only branch). In particular, once
  \<open>remove_server\<close> has removed a backend, the decrement of a request still in flight on
  it changes nothing and does not bring the entry back.
\<close>

theorem task_accounting_absent_noop:
  "(map_of servers addr = None \<longrightarrow>
      increment_task servers addr = servers \<and> decrement_task servers addr = servers)
   \<and> decrement_task (remove_server servers addr) addr = remove_server servers addr
   \<and> increment_task (remove_server servers addr) addr = remove_server servers addr
   \<and> map_of (decrement_task (remove_server servers addr) addr) addr = None"
  by (auto simp: increment_task_def decrement_task_def remove_server_def map_of_dict_del
           split: option.splits)

theorem task_accounting_absent_noop_witness:
  "map_of [(''a:1'', new_status ''a:1'')] ''b:2'' = None
   \<and> increment_task [(''a:1'', new_status ''a:1'')] ''b:2'' = [(''a:1'', new_status ''a:1'')]
   \<and> decrement_task [(''a:1'', new_status ''a:1'')] ''b:2'' = [(''a:1'', new_status ''a:1'')]"
  using task_accounting_absent_noop [of "[(''a:1'', new_status ''a:1'')]" "''b:2''"]
  by simp

section \<open>Registry invariants\<close>

lemma all_status_dict_set:
  "all_status P servers \<Longrightarrow> P s \<Longrightarrow> all_status P (dict_set a s servers)"
  using set_dict_set_subset[of a s servers] by (auto simp: all_status_def)

lemma all_status_dict_del: "all_status P servers \<Longrightarrow> all_status P (dict_del a servers)"
  using set_dict_del_subset[of a servers] by (auto simp: all_status_def)

lemma all_status_lookup: "all_status P servers \<Longrightarrow> map_of servers a = Some s \<Longrightarrow> P s"
  by (auto simp: all_status_def dest: map_of_SomeD)

lemma all_status_init:
  "all_status P acc \<Longrightarrow> (\<And>a. P (new_status a)) \<Longrightarrow>
     all_status P (fold (\<lambda>addr servers. dict_set addr (new_status addr) servers) xs acc)"
proof (induction xs arbitrary: acc)
  case Nil
  then show ?case by simp
next
  case (Cons x xs)
  have "all_status P (dict_set x (new_status x) acc)"
    using Cons.prems by (intro all_status_dict_set) simp_all
  then show ?case using Cons.IH Cons.prems(2) by simp
qed

lemma tasks_ok_mark:
  "all_status tasks_ok servers \<Longrightarrow> mark_server_error mx servers a = Inr servers'
     \<Longrightarrow> all_status tasks_ok servers'"
  by (auto simp: mark_server_error_def Let_def split: option.splits if_splits
           intro!: all_status_dict_set dest: all_status_lookup)

lemma tasks_ok_body_Inl:
  "all_status tasks_ok servers \<Longrightarrow> apply_queue_body now servers a body = Inl s'
     \<Longrightarrow> all_status tasks_ok s'"
  by (auto simp: apply_queue_body_def Let_def split: option.splits sum.splits
           intro!: all_status_dict_set dest: all_status_lookup)

lemma tasks_ok_body_Inr:
  "all_status tasks_ok servers \<Longrightarrow> apply_queue_body now servers a body = Inr s'
     \<Longrightarrow> all_status tasks_ok s'"
  by (auto simp: apply_queue_body_def Let_def split: option.splits sum.splits
           intro!: all_status_dict_set dest: all_status_lookup)

lemma tasks_ok_update:
  "all_status tasks_ok servers \<Longrightarrow> update_server_status mx now servers a outcome = Inr servers'
     \<Longrightarrow> all_status tasks_ok servers'"
  by (auto simp: update_server_status_def split: probe.splits if_splits sum.splits
           dest: tasks_ok_mark tasks_ok_body_Inl tasks_ok_body_Inr)

lemma tasks_ok_apply_op:
  assumes "all_status tasks_ok servers"
  shows "all_status tasks_ok (apply_op mx op servers)"
proof (cases op)
  case (AddServer a)
  then show ?thesis using assms
    by (auto simp: add_server_def new_status_def split: option.splits
             intro!: all_status_dict_set)
next
  case (RemoveServer a)
  then show ?thesis using assms
    by (auto simp: remove_server_def split: option.splits intro: all_status_dict_del)
next
  case (HealthCheck a outcome now)
  then show ?thesis using assms
    by (auto split: sum.splits dest: tasks_ok_update)
next
  case (IncrementTask a)
  then show ?thesis using assms
    by (auto simp: increment_task_def split: option.splits
             intro!: all_status_dict_set dest: all_status_lookup)
next
  case (DecrementTask a)
  then show ?thesis using assms
    by (auto simp: decrement_task_def split: option.splits intro!: all_status_dict_set)
qed

lemma tasks_ok_fold:
  "all_status tasks_ok servers \<Longrightarrow> all_status tasks_ok (fold (apply_op mx) ops servers)"
  by (induction ops arbitrary: servers) (auto simp: tasks_ok_apply_op)

text \<open>
  C7: in every registry reached from the constructor by any sequence of add, remove,
  health check, increment and decrement, every backend's \<open>current_tasks\<close> is at least 0;
  and \<open>decrement_task\<close> on a backend whose counter is 0 returns the registry as it was
  (the counter is clamped by \<open>max(0, _)\<close>).
\<close>

theorem current_tasks_never_negative:
  "(\<forall>(a, s) \<in> set (run_ops mx ops (init_servers addrs)). 0 \<le> current_tasks s)
   \<and> (map_of servers b = Some st \<and> current_tasks st = 0 \<longrightarrow>
        decrement_task servers b = servers)"
proof -
  have "all_status tasks_ok (init_servers addrs)"
    unfolding init_servers_def
    by (rule all_status_init) (simp_all add: all_status_def new_status_def)
  then have "all_status tasks_ok (run_ops mx ops (init_servers addrs))"
    unfolding run_ops_def by (rule tasks_ok_fold)
  moreover have "map_of servers b = Some st \<and> current_tasks st = 0 \<longrightarrow>
      decrement_task servers b = servers"
    by (auto simp: decrement_task_def dict_set_same)
  ultimately show ?thesis by (simp add: all_status_def)
qed

theorem current_tasks_never_negative_witness:
  "run_ops 3 [DecrementTask ''a:1'', IncrementTask ''a:1''] (init_servers [''a:1''])
     = [(''a:1'', (new_status ''a:1'')\<lparr>current_tasks := 1\<rparr>)]
   \<and> list_all (\<lambda>(a, s). 0 \<le> current_tasks s)
        (run_ops 3 [DecrementTask ''a:1'', IncrementTask ''a:1''] (init_servers [''a:1'']))
   \<and> map_of [(''a:1'', new_status ''a:1'')] ''a:1'' = Some (new_status ''a:1'')
   \<and> current_tasks (new_status ''a:1'') = 0
   \<and> decrement_task [(''a:1'', new_status ''a:1'')] ''a:1'' = [(''a:1'', new_status ''a:1'')]"
  using current_tasks_never_negative [of 3 "[DecrementTask ''a:1'', IncrementTask ''a:1'']"
      "[''a:1'']" "[(''a:1'', new_status ''a:1'')]" "''a:1''" "new_status ''a:1''"]
  by (simp add: run_ops_def init_servers_def decrement_task_def increment_task_def
        new_status_def)

section \<open>Health check\<close>

lemma avail_ok_mark:
  "all_status (avail_ok mx) servers \<Longrightarrow> mark_server_error mx servers a = Inr servers'
     \<Longrightarrow> all_status (avail_ok mx) servers'"
  by (auto simp: mark_server_error_def Let_def split: option.splits if_splits
           intro!: all_status_dict_set dest: all_status_lookup)

lemma avail_ok_body_Inl:
  "all_status (avail_ok mx) servers \<Longrightarrow> apply_queue_body now servers a body = Inl s'
     \<Longrightarrow> all_status (avail_ok mx) s'"
  by (auto simp: apply_queue_body_def Let_def split: option.splits sum.splits
           intro!: all_status_dict_set dest: all_status_lookup)

lemma avail_ok_body_Inr:
  "all_status (avail_ok mx) servers \<Longrightarrow> apply_queue_body now servers a body = Inr s'
     \<Longrightarrow> all_status (avail_ok mx) s'"
  by (auto simp: apply_queue_body_def Let_def split: option.splits sum.splits
           intro!: all_status_dict_set)

lemma avail_ok_update:
  "all_status (avail_ok mx) servers \<Longrightarrow> update_server_status mx now servers a outcome = Inr servers'
     \<Longrightarrow> all_status (avail_ok mx) servers'"
  by (auto simp: update_server_status_def split: probe.splits if_splits sum.splits
           dest: avail_ok_mark avail_ok_body_Inl avail_ok_body_Inr)

lemma avail_ok_apply_op:
  assumes "all_status (avail_ok mx) servers"
  shows "all_status (avail_ok mx) (apply_op mx op servers)"
proof (cases op)
  case (AddServer a)
  then show ?thesis using assms
    by (auto simp: add_server_def new_status_def split: option.splits
             intro!: all_status_dict_set)
next
  case (RemoveServer a)
  then show ?thesis using assms
    by (auto simp: remove_server_def split: option.splits intro: all_status_dict_del)
next
  case (HealthCheck a outcome now)
  then show ?thesis using assms
    by (auto split: sum.splits dest: avail_ok_update)
next
  case (IncrementTask a)
  then show ?thesis using assms
    by (auto simp: increment_task_def split: option.splits
             intro!: all_status_dict_set dest: all_status_lookup)
next
  case (DecrementTask a)
  then show ?thesis using assms
    by (auto simp: decrement_task_def split: option.splits
             intro!: all_status_dict_set dest: all_status_lookup)
qed

lemma avail_ok_reachable:
  "all_status (avail_ok mx) (run_ops mx ops (init_servers addrs))"
proof -
  have "all_status (avail_ok mx) (init_servers addrs)"
    unfolding init_servers_def
    by (rule all_status_init) (simp_all add: all_status_def new_status_def)
  moreover have "all_status (avail_ok mx) servers \<Longrightarrow>
      all_status (avail_ok mx) (fold (apply_op mx) ops servers)" for servers
    by (induction ops arbitrary: servers) (auto simp: avail_ok_apply_op)
  ultimately show ?thesis by (simp add: run_ops_def)
qed

text \<open>
  C6: for a registered backend \<open>b\<close> with status \<open>s\<close>. After a 200 response whose body
  is an object with \<open>queue_running\<close> and \<open>queue_pending\<close> arrays (an absent key reads as
  the empty array), the status of \<open>b\<close> holds the two lengths, is available, has error
  count 0 and the time of the check; nothing else changes. After a response with another
  status code, or a failed request, the error count is one higher and \<open>b\<close> is available
  only if it was available and the new count is below the threshold; so, a backend being
  unavailable only at the threshold (which holds in every reachable registry), \<open>b\<close> is
  then unavailable exactly when the new count has reached the threshold.
\<close>

theorem probe_outcome_recorded:
  assumes "map_of servers b = Some s"
  shows "(get_default_list data ''queue_running'' = Inr (JList running)
          \<and> get_default_list data ''queue_pending'' = Inr (JList pending) \<longrightarrow>
          update_server_status mx now servers b (Response 200 (Some data)) =
            Inr (dict_set b (s\<lparr>queue_remaining := int (length running),
                   queue_pending := int (length pending), is_available := True,
                   last_check_time := now, error_count := 0\<rparr>) servers))
       \<and> (outcome = RequestFailed \<or> (\<exists>code body. outcome = Response code body \<and> code \<noteq> 200) \<longrightarrow>
          (\<exists>s'. update_server_status mx now servers b outcome = Inr (dict_set b s' servers)
             \<and> s' = s\<lparr>error_count := error_count s + 1,
                       is_available := (is_available s \<and> error_count s + 1 < mx)\<rparr>
             \<and> (avail_ok mx s \<longrightarrow> (\<not> is_available s' \<longleftrightarrow> mx \<le> error_count s'))))"
  using assms
  by (auto simp: update_server_status_def apply_queue_body_def mark_server_error_def Let_def)

theorem probe_outcome_recorded_witness:
  "map_of [(''a:1'', new_status ''a:1'')] ''a:1'' = Some (new_status ''a:1'')
   \<and> update_server_status 3 17 [(''a:1'', new_status ''a:1'')] ''a:1''
        (Response 200 (Some (JDict [(''queue_running'', JList [JInt 1]),
                                     (''queue_pending'', JList [JInt 2, JInt 3])])))
      = Inr [(''a:1'', (new_status ''a:1'')\<lparr>queue_remaining := 1, queue_pending := 2,
                 last_check_time := 17\<rparr>)]
   \<and> update_server_status 3 17 [(''a:1'', (new_status ''a:1'')\<lparr>error_count := 2\<rparr>)] ''a:1''
        (Response 503 None)
      = Inr [(''a:1'', (new_status ''a:1'')\<lparr>error_count := 3, is_available := False\<rparr>)]"
proof -
  have h: "map_of [(''a:1'', new_status ''a:1'')] ''a:1'' = Some (new_status ''a:1'')"
    by simp
  have h2: "map_of [(''a:1'', (new_status ''a:1'')\<lparr>error_count := 2\<rparr>)] ''a:1''
      = Some ((new_status ''a:1'')\<lparr>error_count := 2\<rparr>)"
    by simp
  show ?thesis
    using probe_outcome_recorded [OF h, where
        data = "JDict [(''queue_running'', JList [JInt 1]),
                       (''queue_pending'', JList [JInt 2, JInt 3])]"
        and running = "[JInt 1]" and pending = "[JInt 2, JInt 3]" and mx = 3 and now = 17
        and outcome = RequestFailed]
      probe_outcome_recorded [OF h2, where data = JNull and running = "[]" and pending = "[]"
        and outcome = "Response 503 None" and mx = 3 and now = 17]
    by (simp add: new_status_def)
qed

section \<open>Selector\<close>

lemma sort_key_hd_min:
  assumes "sort_key f xs = y # ys"
  shows "y \<in> set xs \<and> (\<forall>x \<in> set xs. f y \<le> f x)"
proof -
  have s: "set (y # ys) = set xs" using assms by (metis set_sort)
  have "sorted (map f (y # ys))" using assms by (metis sorted_sort_key)
  then have "\<forall>x \<in> set (y # ys). f y \<le> f x" by auto
  with s show ?thesis by auto
qed

text \<open>
  C4: when no backend of the registry is available, \<open>get_best_server\<close> returns the first
  address of the registry in insertion order, and returns \<open>None\<close> only for the empty
  registry.
\<close>

theorem all_unavailable_fallback:
  assumes "\<forall>(a, s) \<in> set servers. \<not> is_available s"
  shows "get_best_server shuffle servers =
           Inr (case servers of [] \<Rightarrow> None | (addr, _) # _ \<Rightarrow> Some addr)
         \<and> (get_best_server shuffle servers = Inr None \<longleftrightarrow> servers = [])"
proof -
  have "filter (\<lambda>(addr, status). is_available status) servers = []"
    using assms by (auto simp: filter_empty_conv)
  then have "get_best_server shuffle servers =
           Inr (case servers of [] \<Rightarrow> None | (addr, _) # _ \<Rightarrow> Some addr)"
    by (simp add: get_best_server_def split: list.splits)
  then show ?thesis
    by (simp split: list.splits prod.splits)
qed

theorem all_unavailable_fallback_witness:
  "list_all (\<lambda>(a, s). \<not> is_available s)
      [(''a:1'', (new_status ''a:1'')\<lparr>is_available := False\<rparr>),
       (''b:2'', (new_status ''b:2'')\<lparr>is_available := False\<rparr>)]
   \<and> get_best_server rev [(''a:1'', (new_status ''a:1'')\<lparr>is_available := False\<rparr>),
                           (''b:2'', (new_status ''b:2'')\<lparr>is_available := False\<rparr>)]
       = Inr (Some ''a:1'')"
proof -
  have h: "\<forall>(a, s) \<in> set [(''a:1'', (new_status ''a:1'')\<lparr>is_available := False\<rparr>),
                     (''b:2'', (new_status ''b:2'')\<lparr>is_available := False\<rparr>)].
       \<not> is_available s"
    by simp
  show ?thesis using h all_unavailable_fallback [OF h, of rev] by simp
qed

text \<open>
  C3: when some backend is available and the shuffle returns a permutation of the
  available backends, \<open>get_best_server\<close> returns the address of an available backend whose
  \<open>total_load\<close> is minimal among the available ones; so of two available backends it
  never returns the one with the strictly larger load.
\<close>

theorem best_server_minimal:
  assumes av: "\<exists>(a, s) \<in> set servers. is_available s"
    and sh: "mset (shuffle (filter (\<lambda>(addr, status). is_available status) servers))
             = mset (filter (\<lambda>(addr, status). is_available status) servers)"
    and d: "distinct (map fst servers)"
  shows "(\<exists>a s. get_best_server shuffle servers = Inr (Some a) \<and> (a, s) \<in> set servers
           \<and> is_available s
           \<and> (\<forall>(b, t) \<in> set servers. is_available t \<longrightarrow> total_load s \<le> total_load t))
       \<and> (\<forall>(a, sa) \<in> set servers. \<forall>(b, sb) \<in> set servers.
            is_available sa \<and> is_available sb \<and> total_load sa < total_load sb \<longrightarrow>
            get_best_server shuffle servers \<noteq> Inr (Some b))"
proof -
  define avl where "avl = filter (\<lambda>(addr, status). is_available status) servers"
  have ne: "avl \<noteq> []" using av by (auto simp: avl_def filter_empty_conv)
  have seteq: "set (shuffle avl) = set avl" using sh unfolding avl_def by (metis set_mset_mset)
  then have "shuffle avl \<noteq> []" using ne by auto
  then have "sort_key (\<lambda>x. total_load (snd x)) (shuffle avl) \<noteq> []"
    by (metis length_sort length_0_conv)
  then obtain y ys where ys: "sort_key (\<lambda>x. total_load (snd x)) (shuffle avl) = y # ys"
    by (cases "sort_key (\<lambda>x. total_load (snd x)) (shuffle avl)") auto
  obtain a s where y: "y = (a, s)" by (cases y)
  from sort_key_hd_min[OF ys] seteq
  have mem: "(a, s) \<in> set avl" and mn: "\<forall>x \<in> set avl. total_load s \<le> total_load (snd x)"
    by (auto simp: y)
  have res: "get_best_server shuffle servers = Inr (Some a)"
    using ne ys y by (simp add: get_best_server_def avl_def[symmetric])
  have in_s: "(a, s) \<in> set servers" "is_available s" using mem by (auto simp: avl_def)
  have min: "\<forall>(b, t) \<in> set servers. is_available t \<longrightarrow> total_load s \<le> total_load t"
    using mn by (auto simp: avl_def)
  have "\<forall>(a', sa) \<in> set servers. \<forall>(b, sb) \<in> set servers.
            is_available sa \<and> is_available sb \<and> total_load sa < total_load sb \<longrightarrow>
            get_best_server shuffle servers \<noteq> Inr (Some b)"
  proof (clarify)
    fix a' sa b sb
    assume *: "(a', sa) \<in> set servers" "(b, sb) \<in> set servers" "is_available sa"
      "total_load sa < total_load sb" "get_best_server shuffle servers = Inr (Some b)"
    then have "b = a" using res by simp
    with d in_s * have "sb = s" by (meson eq_key_imp_eq_value)
    moreover have "total_load s \<le> total_load sa" using min * by auto
    ultimately show False using * by simp
  qed
  with res in_s min show ?thesis by blast
qed

theorem best_server_minimal_witness:
  "(\<exists>(a, s) \<in> set [(''a:1'', (new_status ''a:1'')\<lparr>is_available := False\<rparr>),
                     (''b:2'', (new_status ''b:2'')\<lparr>queue_pending := 5\<rparr>),
                     (''c:3'', (new_status ''c:3'')\<lparr>current_tasks := 2\<rparr>)]. is_available s)
   \<and> get_best_server rev [(''a:1'', (new_status ''a:1'')\<lparr>is_available := False\<rparr>),
                     (''b:2'', (new_status ''b:2'')\<lparr>queue_pending := 5\<rparr>),
                     (''c:3'', (new_status ''c:3'')\<lparr>current_tasks := 2\<rparr>)]
       \<noteq> Inr (Some ''b:2'')"
proof -
  let ?servers = "[(''a:1'', (new_status ''a:1'')\<lparr>is_available := False\<rparr>),
                     (''b:2'', (new_status ''b:2'')\<lparr>queue_pending := 5\<rparr>),
                     (''c:3'', (new_status ''c:3'')\<lparr>current_tasks := 2\<rparr>)]"
  have h1: "\<exists>(a, s) \<in> set ?servers. is_available s"
    by (simp add: new_status_def)
  have h2: "mset (rev (filter (\<lambda>(addr, status). is_available status) ?servers))
             = mset (filter (\<lambda>(addr, status). is_available status) ?servers)"
    by simp
  have h3: "distinct (map fst ?servers)" by simp
  have "\<forall>(a, sa) \<in> set ?servers. \<forall>(b, sb) \<in> set ?servers.
            is_available sa \<and> is_available sb \<and> total_load sa < total_load sb \<longrightarrow>
            get_best_server rev ?servers \<noteq> Inr (Some b)"
    using best_server_minimal [where shuffle = rev and servers = ?servers, OF h1 h2 h3] by blast
  then have "get_best_server rev ?servers \<noteq> Inr (Some ''b:2'')"
    by (simp add: new_status_def total_load_def)
  with h1 show ?thesis by blast
qed

section \<open>Workflow rewriting\<close>

lemma dict_set_append:
  "k \<notin> fst ` set pre \<Longrightarrow> dict_set k v (pre @ (k, v0) # post) = pre @ (k, v) # post"
  by (induction pre) auto

lemma dict_set_absent: "k \<notin> fst ` set d \<Longrightarrow> dict_set k v d = d @ [(k, v)]"
  by (induction d) auto

lemma map_of_None_iff: "map_of d k = None \<longleftrightarrow> k \<notin> fst ` set d"
  by (simp add: map_of_eq_None_iff)

lemma rewrite_item_unchanged: "\<not> item_matches x \<Longrightarrow> rewrite_item filename x = x"
  by (cases x) auto

lemma rewrite_items_unchanged:
  "\<not> list_ex item_matches v \<Longrightarrow> map (rewrite_item filename) v = v"
  by (induction v) (auto simp: rewrite_item_unchanged)

lemma rewrite_entry_at:
  assumes "k \<notin> fst ` set pre"
  shows "rewrite_entry filename (k, v) (pre @ (k, v) # post)
           = pre @ (k, rewrite_value filename v) # post"
proof (cases v)
  case (JStr s)
  then show ?thesis using assms by (simp add: dict_set_append)
next
  case (JList items)
  then show ?thesis using assms
    by (simp add: dict_set_append rewrite_items_unchanged Let_def)
qed simp_all

lemma fold_rewrite_entry:
  "distinct (map fst (done @ todo)) \<Longrightarrow>
     fold (rewrite_entry filename) todo (done @ todo)
       = done @ map (\<lambda>(k, v). (k, rewrite_value filename v)) todo"
proof (induction todo arbitrary: "done")
  case Nil
  then show ?case by simp
next
  case (Cons e todo)
  obtain k v where e: "e = (k, v)" by (cases e)
  have k: "k \<notin> fst ` set done" using Cons.prems by (auto simp: e)
  have step: "rewrite_entry filename e (done @ e # todo)
      = (done @ [(k, rewrite_value filename v)]) @ todo"
    using rewrite_entry_at[OF k] by (simp add: e)
  have d: "distinct (map fst ((done @ [(k, rewrite_value filename v)]) @ todo))"
    using Cons.prems by (auto simp: e)
  have "fold (rewrite_entry filename) (e # todo) (done @ e # todo)
      = fold (rewrite_entry filename) todo ((done @ [(k, rewrite_value filename v)]) @ todo)"
    by (simp only: fold_simps step)
  also have "\<dots> = (done @ [(k, rewrite_value filename v)])
      @ map (\<lambda>(k, v). (k, rewrite_value filename v)) todo"
    by (rule Cons.IH[OF d])
  finally show ?case by (simp add: e)
qed

lemma rewrite_inputs_eq:
  assumes "distinct (map fst inputs)"
  shows "rewrite_inputs filename inputs =
           map (\<lambda>(k, v). (k, rewrite_value filename v)) inputs
           @ (if ''image'' \<in> fst ` set inputs then [] else [(''image'', JStr filename)])"
proof -
  let ?m = "map (\<lambda>(k, v). (k, rewrite_value filename v)) inputs"
  have f: "fold (rewrite_entry filename) inputs inputs = ?m"
    using fold_rewrite_entry[of "[]" inputs filename] assms by simp
  have keys: "fst ` set ?m = fst ` set inputs" by force
  have "map_of ?m ''image'' = None \<longleftrightarrow> ''image'' \<notin> fst ` set inputs"
    unfolding map_of_None_iff keys ..
  then show ?thesis
    unfolding rewrite_inputs_def Let_def f
    using dict_set_absent[of "''image''" ?m "JStr filename"] keys by auto
qed

lemma is_load_image_dict: "is_load_image (JDict nd) = Inr (node_is_load_image (JDict nd))"
  by (auto simp: is_load_image_def split: option.splits)

lemma is_load_image_node: "is_dict node \<Longrightarrow> is_load_image node = Inr (node_is_load_image node)"
  by (cases node) (simp_all add: is_load_image_dict)

lemma load_image_truthy: "node_is_load_image node \<Longrightarrow> truthy node"
  by (cases node) auto

lemma fallback_scan_found:
  assumes "list_all (\<lambda>(k, n). is_dict n \<and> \<not> node_is_load_image n) pre"
    and "node_is_load_image (JDict nd)"
    and "setdefault_inputs nd = JDict inputs"
  shows "fallback_scan filename (pre @ (nid, JDict nd) # post) g
           = Inr (dict_set nid (JDict (dict_set ''inputs''
                    (JDict (dict_set ''image'' (JStr filename) inputs)) nd)) g, True)"
  using assms
proof (induction pre)
  case Nil
  then show ?case by (simp add: is_load_image_dict set_image_def)
next
  case (Cons p pre)
  obtain k n where p: "p = (k, n)" by (cases p)
  with Cons.prems have "is_load_image n = Inr False" by (simp add: is_load_image_node)
  with Cons show ?case by (simp add: p)
qed

lemma fallback_scan_none:
  "list_all (\<lambda>(k, n). is_dict n \<and> \<not> node_is_load_image n) xs \<Longrightarrow>
     fallback_scan filename xs g = Inr (g, False)"
proof (induction xs)
  case Nil
  then show ?case by simp
next
  case (Cons p xs)
  obtain k n where p: "p = (k, n)" by (cases p)
  with Cons.prems have "is_load_image n = Inr False" by (simp add: is_load_image_node)
  with Cons show ?case by (simp add: p)
qed

lemma map_of_at:
  "k \<notin> fst ` set pre \<Longrightarrow> map_of (pre @ (k, v) # post) k = Some v"
  by (induction pre) auto

lemma rewrite_image_preferred:
  assumes g: "graph = pre @ (''10'', JDict nd) # post" and k: "''10'' \<notin> fst ` set pre"
    and li: "node_is_load_image (JDict nd)"
    and inp: "setdefault_inputs nd = JDict inputs"
  shows "rewrite_image filename graph
           = Inr (pre @ (''10'', JDict (dict_set ''inputs''
                    (JDict (rewrite_inputs filename inputs)) nd)) # post, True)"
proof -
  have m: "map_of graph ''10'' = Some (JDict nd)" unfolding g using k by (rule map_of_at)
  have t: "truthy (JDict nd)" using li by (rule load_image_truthy)
  show ?thesis
    unfolding rewrite_image_def Let_def target_node_id_def m
    using t li inp k
    by (simp add: is_load_image_dict rewrite_node_def g dict_set_append del: truthy.simps
          node_is_load_image.simps)
qed

lemma not_preferred:
  "skips_preferred graph \<Longrightarrow>
     rewrite_image filename graph = fallback_scan filename graph graph"
  unfolding rewrite_image_def Let_def target_node_id_def skips_preferred_def
  by (auto split: option.splits simp: is_load_image_node)

lemma rewrite_image_fallback:
  assumes np: "skips_preferred graph"
    and g: "graph = pre @ (nid, JDict nd) # post" and k: "nid \<notin> fst ` set pre"
    and pre: "list_all (\<lambda>(k, n). is_dict n \<and> \<not> node_is_load_image n) pre"
    and li: "node_is_load_image (JDict nd)"
    and inp: "setdefault_inputs nd = JDict inputs"
  shows "rewrite_image filename graph
           = Inr (pre @ (nid, JDict (dict_set ''inputs''
                    (JDict (dict_set ''image'' (JStr filename) inputs)) nd)) # post, True)"
  using not_preferred[OF np] fallback_scan_found[OF pre li inp, of filename nid post graph]
  by (simp add: g dict_set_append[OF k])

lemma rewrite_image_none:
  assumes "list_all (\<lambda>(k, n). is_dict n \<and> \<not> node_is_load_image n) graph"
  shows "rewrite_image filename graph = Inr (graph, False)"
proof -
  have "skips_preferred graph"
    using assms unfolding skips_preferred_def
    by (auto split: option.splits simp: list_all_iff dest!: map_of_SomeD)
  then show ?thesis using fallback_scan_none[OF assms] by (simp add: not_preferred)
qed

text \<open>
  C2: in a graph whose nodes are JSON objects with distinct ids. If node \<open>"10"\<close> is of
  class \<open>LoadImage\<close>, the result is the graph with that node rewritten and every other
  node as it was. If node \<open>"10"\<close> is missing or of another class, and the graph has a
  node of class \<open>LoadImage\<close>, the first such node in iteration order is the only one that
  changes. If no node is of class \<open>LoadImage\<close>, the graph comes back unchanged with
  \<open>replaced = False\<close>, and \<open>run_workflow_with_image\<close> goes on to submit it: the missing
  target raises nothing.
\<close>

theorem image_rewrite_target:
  assumes "distinct (map fst graph)"
  shows "(graph = pre @ (''10'', JDict nd) # post \<and> node_is_load_image (JDict nd)
            \<and> setdefault_inputs nd = JDict inputs \<longrightarrow>
          rewrite_image filename graph
            = Inr (pre @ (''10'', JDict (dict_set ''inputs''
                     (JDict (rewrite_inputs filename inputs)) nd)) # post, True))
       \<and> (skips_preferred graph \<and> graph = pre' @ (nid, JDict nd') # post'
            \<and> list_all (\<lambda>(k, n). is_dict n \<and> \<not> node_is_load_image n) pre'
            \<and> node_is_load_image (JDict nd') \<and> setdefault_inputs nd' = JDict inputs' \<longrightarrow>
          rewrite_image filename graph
            = Inr (pre' @ (nid, JDict (dict_set ''inputs''
                     (JDict (dict_set ''image'' (JStr filename) inputs')) nd')) # post', True))
       \<and> (list_all (\<lambda>(k, n). is_dict n \<and> \<not> node_is_load_image n) graph \<longrightarrow>
          rewrite_image filename graph = Inr (graph, False)
          \<and> run_workflow_with_image io (JDict graph) filename timeout
              = submit_and_fetch io (JDict graph) timeout)"
proof (intro conjI impI)
  assume h: "graph = pre @ (''10'', JDict nd) # post \<and> node_is_load_image (JDict nd)
            \<and> setdefault_inputs nd = JDict inputs"
  then have "''10'' \<notin> fst ` set pre" using assms by auto
  with h show "rewrite_image filename graph
            = Inr (pre @ (''10'', JDict (dict_set ''inputs''
                     (JDict (rewrite_inputs filename inputs)) nd)) # post, True)"
    by (intro rewrite_image_preferred) blast+
next
  assume h: "skips_preferred graph \<and> graph = pre' @ (nid, JDict nd') # post'
            \<and> list_all (\<lambda>(k, n). is_dict n \<and> \<not> node_is_load_image n) pre'
            \<and> node_is_load_image (JDict nd') \<and> setdefault_inputs nd' = JDict inputs'"
  then have "nid \<notin> fst ` set pre'" using assms by auto
  with h show "rewrite_image filename graph
            = Inr (pre' @ (nid, JDict (dict_set ''inputs''
                     (JDict (dict_set ''image'' (JStr filename) inputs')) nd')) # post', True)"
    by (intro rewrite_image_fallback) blast+
next
  assume h: "list_all (\<lambda>(k, n). is_dict n \<and> \<not> node_is_load_image n) graph"
  then show "rewrite_image filename graph = Inr (graph, False)"
    by (rule rewrite_image_none)
  then show "run_workflow_with_image io (JDict graph) filename timeout
              = submit_and_fetch io (JDict graph) timeout"
    by (simp add: run_workflow_with_image_def)
qed

theorem image_rewrite_target_witness:
  "rewrite_image ''new.png''
     [(''5'', JDict [(''class_type'', JStr ''LoadImage''),
                     (''inputs'', JDict [(''image'', JStr ''old.png'')])]),
      (''10'', JDict [(''class_type'', JStr ''LoadImage''),
                      (''inputs'', JDict [(''image'', JStr ''old.png'')])])]
   = Inr ([(''5'', JDict [(''class_type'', JStr ''LoadImage''),
                          (''inputs'', JDict [(''image'', JStr ''old.png'')])]),
           (''10'', JDict [(''class_type'', JStr ''LoadImage''),
                           (''inputs'', JDict [(''image'', JStr ''new.png'')])])], True)
   \<and> rewrite_image ''new.png''
     [(''4'', JDict [(''class_type'', JStr ''KSampler'')]),
      (''5'', JDict [(''class_type'', JStr ''LoadImage''),
                     (''inputs'', JDict [(''image'', JStr ''old.png'')])])]
   = Inr ([(''4'', JDict [(''class_type'', JStr ''KSampler'')]),
           (''5'', JDict [(''class_type'', JStr ''LoadImage''),
                          (''inputs'', JDict [(''image'', JStr ''new.png'')])])], True)
   \<and> rewrite_image ''new.png'' [(''4'', JDict [(''class_type'', JStr ''KSampler'')])]
   = Inr ([(''4'', JDict [(''class_type'', JStr ''KSampler'')])], False)"
proof -
  let ?N = "[(''class_type'', JStr ''LoadImage''),
             (''inputs'', JDict [(''image'', JStr ''old.png'')])]"
  let ?K = "[(''class_type'', JStr ''KSampler'')]"
  have d1: "distinct (map fst [(''5'', JDict ?N), (''10'', JDict ?N)])" by simp
  have d2: "distinct (map fst [(''4'', JDict ?K), (''5'', JDict ?N)])" by simp
  have d3: "distinct (map fst [(''4'', JDict ?K)])" by simp
  have r: "rewrite_inputs ''new.png'' [(''image'', JStr ''old.png'')]
             = [(''image'', JStr ''new.png'')]"
    by (simp add: rewrite_inputs_def is_image_ref_def endswith_def)
  have a: "rewrite_image ''new.png'' [(''5'', JDict ?N), (''10'', JDict ?N)]
      = Inr ([(''5'', JDict ?N),
              (''10'', JDict [(''class_type'', JStr ''LoadImage''),
                              (''inputs'', JDict [(''image'', JStr ''new.png'')])])], True)"
    using image_rewrite_target [OF d1, where pre = "[(''5'', JDict ?N)]" and nd = ?N
        and post = "[]" and inputs = "[(''image'', JStr ''old.png'')]"
        and filename = "''new.png''"] r
    by (simp add: setdefault_inputs_def)
  have b: "rewrite_image ''new.png'' [(''4'', JDict ?K), (''5'', JDict ?N)]
      = Inr ([(''4'', JDict ?K),
              (''5'', JDict [(''class_type'', JStr ''LoadImage''),
                             (''inputs'', JDict [(''image'', JStr ''new.png'')])])], True)"
    using image_rewrite_target [OF d2, where pre' = "[(''4'', JDict ?K)]" and nd' = ?N
        and post' = "[]" and inputs' = "[(''image'', JStr ''old.png'')]" and nid = "''5''"
        and filename = "''new.png''"]
    by (simp add: setdefault_inputs_def skips_preferred_def)
  have c: "rewrite_image ''new.png'' [(''4'', JDict ?K)] = Inr ([(''4'', JDict ?K)], False)"
    using image_rewrite_target [OF d3, where filename = "''new.png''"]
    by simp
  from a b c show ?thesis by simp
qed

text \<open>
  C1, as the code has it. On node \<open>"10"\<close> (the preferred target) every entry of \<open>inputs\<close>
  keeps its key and its place; a string value that ends in \<open>.png\<close> or \<open>.jpg\<close>, or
  contains \<open>pasted/\<close> or \<open>input\<close>, becomes the filename; in a list value each string
  element that ends in \<open>.png\<close> or \<open>.jpg\<close> or contains \<open>pasted/\<close> becomes the filename
  (an element that only contains \<open>input\<close> does not) and the other elements stay in
  order; every other value is unchanged; and a missing key \<open>image\<close> is added at the end
  with the filename. On a node found by the fallback only \<open>inputs['image']\<close> is set to
  the filename; the other entries are unchanged.
\<close>

theorem image_rewrite_operation:
  assumes "distinct (map fst graph)" and "distinct (map fst inputs)"
  shows "(graph = pre @ (''10'', JDict nd) # post \<and> node_is_load_image (JDict nd)
            \<and> setdefault_inputs nd = JDict inputs \<longrightarrow>
          rewrite_image filename graph
            = Inr (pre @ (''10'', JDict (dict_set ''inputs''
                     (JDict (map (\<lambda>(k, v). (k, rewrite_value filename v)) inputs
                        @ (if ''image'' \<in> fst ` set inputs then []
                           else [(''image'', JStr filename)]))) nd)) # post, True))
       \<and> (skips_preferred graph \<and> graph = pre @ (nid, JDict nd) # post
            \<and> list_all (\<lambda>(k, n). is_dict n \<and> \<not> node_is_load_image n) pre
            \<and> node_is_load_image (JDict nd) \<and> setdefault_inputs nd = JDict inputs \<longrightarrow>
          rewrite_image filename graph
            = Inr (pre @ (nid, JDict (dict_set ''inputs''
                     (JDict (dict_set ''image'' (JStr filename) inputs)) nd)) # post, True))"
proof (intro conjI impI)
  assume h: "graph = pre @ (''10'', JDict nd) # post \<and> node_is_load_image (JDict nd)
            \<and> setdefault_inputs nd = JDict inputs"
  then have "''10'' \<notin> fst ` set pre" using assms(1) by auto
  with h have "rewrite_image filename graph
            = Inr (pre @ (''10'', JDict (dict_set ''inputs''
                     (JDict (rewrite_inputs filename inputs)) nd)) # post, True)"
    by (intro rewrite_image_preferred) blast+
  then show "rewrite_image filename graph
            = Inr (pre @ (''10'', JDict (dict_set ''inputs''
                     (JDict (map (\<lambda>(k, v). (k, rewrite_value filename v)) inputs
                        @ (if ''image'' \<in> fst ` set inputs then []
                           else [(''image'', JStr filename)]))) nd)) # post, True)"
    by (simp only: rewrite_inputs_eq[OF assms(2)])
next
  assume h: "skips_preferred graph \<and> graph = pre @ (nid, JDict nd) # post
            \<and> list_all (\<lambda>(k, n). is_dict n \<and> \<not> node_is_load_image n) pre
            \<and> node_is_load_image (JDict nd) \<and> setdefault_inputs nd = JDict inputs"
  then have "nid \<notin> fst ` set pre" using assms(1) by auto
  with h show "rewrite_image filename graph
            = Inr (pre @ (nid, JDict (dict_set ''inputs''
                     (JDict (dict_set ''image'' (JStr filename) inputs)) nd)) # post, True)"
    by (intro rewrite_image_fallback) blast+
qed

theorem image_rewrite_operation_witness:
  "rewrite_image ''new.png''
     [(''10'', JDict [(''class_type'', JStr ''LoadImage''),
                      (''inputs'', JDict [(''mask'', JStr ''pasted/m.png''),
                                          (''ref'', JList [JStr ''a.jpg'', JInt 0]),
                                          (''upload'', JStr ''x'')])])]
   = Inr ([(''10'', JDict [(''class_type'', JStr ''LoadImage''),
                      (''inputs'', JDict [(''mask'', JStr ''new.png''),
                                          (''ref'', JList [JStr ''new.png'', JInt 0]),
                                          (''upload'', JStr ''x''),
                                          (''image'', JStr ''new.png'')])])], True)"
proof -
  let ?inputs = "[(''mask'', JStr ''pasted/m.png''), (''ref'', JList [JStr ''a.jpg'', JInt 0]),
                  (''upload'', JStr ''x'')]"
  let ?nd = "[(''class_type'', JStr ''LoadImage''), (''inputs'', JDict ?inputs)]"
  have d1: "distinct (map fst [(''10'', JDict ?nd)])" by simp
  have d2: "distinct (map fst ?inputs)" by simp
  show ?thesis
    using image_rewrite_operation [OF d1 d2, where pre = "[]" and nd = ?nd and post = "[]"
        and filename = "''new.png''"]
    by (simp add: setdefault_inputs_def is_image_ref_def is_image_item_def endswith_def)
qed

text \<open>
  The claim as first stated fails twice: the fallback leaves a matching string entry
  (\<open>mask\<close>) alone, and the list branch does not replace an element that matches only by
  containing \<open>input\<close>.
\<close>

theorem image_rewrite_operation_counterexample:
  "rewrite_image ''new.png''
     [(''5'', JDict [(''class_type'', JStr ''LoadImage''),
                     (''inputs'', JDict [(''image'', JStr ''old.png''),
                                         (''mask'', JStr ''mask.png'')])])]
   = Inr ([(''5'', JDict [(''class_type'', JStr ''LoadImage''),
                          (''inputs'', JDict [(''image'', JStr ''new.png''),
                                              (''mask'', JStr ''mask.png'')])])], True)
   \<and> is_image_ref ''mask.png''
   \<and> rewrite_image ''new.png''
     [(''10'', JDict [(''class_type'', JStr ''LoadImage''),
                      (''inputs'', JDict [(''image'', JList [JStr ''input_face'', JInt 0])])])]
   = Inr ([(''10'', JDict [(''class_type'', JStr ''LoadImage''),
                      (''inputs'', JDict [(''image'', JList [JStr ''input_face'', JInt 0])])])],
          True)
   \<and> is_image_ref ''input_face''"
  by (simp add: rewrite_image_def target_node_id_def is_load_image_def set_image_def
        setdefault_inputs_def rewrite_node_def rewrite_inputs_def is_image_ref_def
        is_image_item_def endswith_def)

section \<open>Watching a job\<close>

lemma py_eq_JStr: "py_eq v (JStr s) \<longleftrightarrow> v = JStr s"
  by (cases v) (auto simp: py_eq_def)

lemma handle_message_True:
  "handle_message (JStr job_id) msg = Some (Inr True) \<longleftrightarrow> is_completion job_id msg"
proof (cases msg)
  case (JDict d)
  show ?thesis
  proof (cases "map_of d ''data''")
    case None
    then show ?thesis using JDict
      by (auto simp: handle_message_def py_eq_JStr split: option.splits)
  next
    case (Some data)
    then show ?thesis using JDict
      by (cases data) (auto simp: handle_message_def py_eq_JStr split: option.splits)
  qed
qed (simp_all add: handle_message_def)

lemma process_frame_True:
  "process_frame (JStr job_id) fr = Some (Inr True)
     \<longleftrightarrow> (\<exists>msg. fr = TextFrame (Some msg) \<and> is_completion job_id msg)"
proof (cases fr)
  case (TextFrame m)
  then show ?thesis by (cases m) (simp_all add: handle_message_True)
qed simp_all

lemma handle_message_not_False: "handle_message prompt_id msg \<noteq> Some (Inr False)"
  by (auto simp: handle_message_def split: sum.splits)

lemma process_frame_not_False: "process_frame prompt_id fr \<noteq> Some (Inr False)"
proof (cases fr)
  case (TextFrame m)
  then show ?thesis by (cases m) (simp_all add: handle_message_not_False)
qed simp_all

lemma progress_no_return:
  assumes "map_of d ''type'' = Some (JStr ''progress'')"
  shows "process_frame prompt_id (TextFrame (Some (JDict d))) \<noteq> Some (Inr b)"
    and "(case map_of d ''data'' of None \<Rightarrow> True | Some v \<Rightarrow> is_dict v) \<Longrightarrow>
           process_frame prompt_id (TextFrame (Some (JDict d))) = None"
proof -
  show "process_frame prompt_id (TextFrame (Some (JDict d))) \<noteq> Some (Inr b)"
    using assms by (auto simp: handle_message_def split: sum.splits)
  assume "case map_of d ''data'' of None \<Rightarrow> True | Some v \<Rightarrow> is_dict v"
  then show "process_frame prompt_id (TextFrame (Some (JDict d))) = None"
    using assms
    by (cases "map_of d ''data''"; cases "the (map_of d ''data'')")
       (auto simp: handle_message_def)
qed

lemma wait_loop_dropWhile:
  "wait_loop prompt_id deadline frames t_end =
     (case dropWhile (passes prompt_id deadline) frames of
        [] \<Rightarrow> if t_end < deadline then None else Some (Inr False)
      | (t, out) # _ \<Rightarrow> if t < deadline then process_frame prompt_id out else Some (Inr False))"
proof (induction frames)
  case Nil
  then show ?case by simp
next
  case (Cons ev frames)
  obtain t out where ev: "ev = (t, out)" by (cases ev)
  show ?case
    using Cons by (auto simp: ev passes_def split: option.splits)
qed

lemma dropWhile_split:
  "dropWhile P xs = y # ys \<longleftrightarrow> (\<exists>pre. xs = pre @ y # ys \<and> list_all P pre \<and> \<not> P y)"
proof
  assume "dropWhile P xs = y # ys"
  then have "xs = takeWhile P xs @ y # ys" and "\<not> P y"
    by (simp_all add: dropWhile_eq_Cons_conv)
  moreover have "list_all P (takeWhile P xs)"
    by (auto simp: list_all_iff dest: set_takeWhileD)
  ultimately show "\<exists>pre. xs = pre @ y # ys \<and> list_all P pre \<and> \<not> P y" by blast
next
  assume "\<exists>pre. xs = pre @ y # ys \<and> list_all P pre \<and> \<not> P y"
  then obtain pre where "xs = pre @ y # ys" "list_all P pre" "\<not> P y" by blast
  then show "dropWhile P xs = y # ys"
    by (simp add: dropWhile_append3 list_all_iff)
qed

lemma wait_loop_True:
  "wait_loop (JStr job_id) deadline frames t_end = Some (Inr True) \<longleftrightarrow>
     (\<exists>pre t msg post. frames = pre @ (t, TextFrame (Some msg)) # post
        \<and> list_all (passes (JStr job_id) deadline) pre \<and> t < deadline
        \<and> is_completion job_id msg)"
  (is "?L \<longleftrightarrow> ?R")
proof
  assume ?L
  then obtain t out rest where dw: "dropWhile (passes (JStr job_id) deadline) frames = (t, out) # rest"
    and t: "t < deadline" and pf: "process_frame (JStr job_id) out = Some (Inr True)"
    by (auto simp: wait_loop_dropWhile split: list.splits if_splits)
  from pf obtain msg where "out = TextFrame (Some msg)" "is_completion job_id msg"
    by (auto simp: process_frame_True)
  with dw t show ?R by (auto simp: dropWhile_split)
next
  assume ?R
  then obtain pre t msg post where f: "frames = pre @ (t, TextFrame (Some msg)) # post"
    and p: "list_all (passes (JStr job_id) deadline) pre" and t: "t < deadline"
    and c: "is_completion job_id msg" by blast
  have pf: "process_frame (JStr job_id) (TextFrame (Some msg)) = Some (Inr True)"
    using c by (simp add: handle_message_True)
  then have "\<not> passes (JStr job_id) deadline (t, TextFrame (Some msg))"
    by (simp add: passes_def)
  with p have "dropWhile (passes (JStr job_id) deadline) frames = (t, TextFrame (Some msg)) # post"
    unfolding f dropWhile_split by blast
  then show ?L using t pf by (simp add: wait_loop_dropWhile)
qed

lemma wait_loop_False:
  "wait_loop prompt_id deadline frames t_end = Some (Inr False) \<longleftrightarrow>
     (\<exists>pre t out post. frames = pre @ (t, out) # post
        \<and> list_all (passes prompt_id deadline) pre \<and> deadline \<le> t)
     \<or> (list_all (passes prompt_id deadline) frames \<and> deadline \<le> t_end)"
  (is "?L \<longleftrightarrow> ?R1 \<or> ?R2")
proof
  assume l: ?L
  show "?R1 \<or> ?R2"
  proof (cases "dropWhile (passes prompt_id deadline) frames")
    case Nil
    then have "list_all (passes prompt_id deadline) frames"
      by (simp add: list_all_iff)
    moreover have "deadline \<le> t_end" using l Nil
      by (simp add: wait_loop_dropWhile split: if_splits)
    ultimately show ?thesis by blast
  next
    case (Cons ev rest)
    obtain t out where ev: "ev = (t, out)" by (cases ev)
    have "deadline \<le> t" using l Cons ev process_frame_not_False[of prompt_id out]
      by (auto simp: wait_loop_dropWhile split: if_splits)
    with Cons ev show ?thesis unfolding dropWhile_split by blast
  qed
next
  assume r: "?R1 \<or> ?R2"
  then show ?L
  proof
    assume ?R1
    then obtain pre t out post where f: "frames = pre @ (t, out) # post"
      and p: "list_all (passes prompt_id deadline) pre" and t: "deadline \<le> t" by blast
    have "\<not> passes prompt_id deadline (t, out)" using t by (simp add: passes_def)
    with p have "dropWhile (passes prompt_id deadline) frames = (t, out) # post"
      unfolding f dropWhile_split by blast
    then show ?L using t by (simp add: wait_loop_dropWhile)
  next
    assume r2: ?R2
    then have dw: "dropWhile (passes prompt_id deadline) frames = []"
      by (simp add: list_all_iff)
    show ?L unfolding wait_loop_dropWhile dw using r2 by simp
  qed
qed

lemma wait_loop_None:
  "wait_loop prompt_id deadline frames t_end = None \<longleftrightarrow>
     list_all (passes prompt_id deadline) frames \<and> t_end < deadline"
proof (induction frames)
  case Nil
  then show ?case by simp
next
  case (Cons ev frames)
  obtain t out where ev: "ev = (t, out)" by (cases ev)
  show ?case using Cons by (auto simp: ev passes_def split: option.splits)
qed

lemma socket_state:
  "wait_for_prompt_exec prompt_id timeout now (Inr (frames, t_end))
     = (wait_loop prompt_id (now + timeout) frames t_end,
        if wait_loop prompt_id (now + timeout) frames t_end = None then Connected else Closed)"
  by (simp add: wait_for_prompt_exec_def try_finally_def Let_def split: option.splits)

text \<open>
  C8: the watch is to return \<open>False\<close> once the deadline has passed without the
  completion signal, and to close the socket on every way out. The code tests the
  deadline only between two receives, on a socket without a timeout. With the clock at 0
  and a timeout of 120: against a backend that accepts the socket and sends nothing, or
  nothing after a progress frame, the call never returns and the socket stays open;
  only when a frame arrives after the deadline (here at 130) does the call return
  \<open>False\<close> and close the socket.
\<close>

theorem watch_silent_backend_hangs:
  "wait_for_prompt_exec (JStr ''p1'') 120 0 (Inr ([], 0)) = (None, Connected)
   \<and> wait_for_prompt_exec (JStr ''p1'') 120 0
       (Inr ([(1, TextFrame (Some (JDict [(''type'', JStr ''progress''),
                (''data'', JDict [(''value'', JInt 1), (''max'', JInt 20)])])))], 2))
     = (None, Connected)
   \<and> wait_for_prompt_exec (JStr ''p1'') 120 0
       (Inr ([(1, TextFrame (Some (JDict [(''type'', JStr ''status'')]))), (130, BinaryFrame)],
             131))
     = (Some (Inr False), Closed)"
  by (simp add: wait_for_prompt_exec_def try_finally_def handle_message_def)

section \<open>Template loading and preload\<close>

lemma keys_dict_set_set: "fst ` set (dict_set k v d) = insert k (fst ` set d)"
  by (induction d) auto

lemma keys_fold_dict_set:
  "fst ` set (fold (\<lambda>a d. dict_set a (f a) d) xs acc) = set xs \<union> fst ` set acc"
  by (induction xs arbitrary: acc) (auto simp: keys_dict_set_set)

lemma keys_dict_del: "fst ` set (dict_del k d) \<subseteq> fst ` set d"
  by (auto simp: dict_del_def)

lemma keys_dict_set_present:
  "map_of d k = Some v \<Longrightarrow> fst ` set (dict_set k v' d) = fst ` set d"
proof -
  assume "map_of d k = Some v"
  then have "k \<in> fst ` set d" by (metis map_of_eq_None_iff option.distinct(1))
  then show ?thesis by (simp add: keys_dict_set_set insert_absorb)
qed

lemma map_of_Some_key: "map_of d k = Some v \<Longrightarrow> k \<in> fst ` set d"
  by (metis map_of_eq_None_iff option.distinct(1))

lemma in_dict_set_keys:
  "map_of d k = Some v \<Longrightarrow> (a, b) \<in> set (dict_set k v' d) \<Longrightarrow> a \<in> fst ` set d"
  using keys_dict_set_present[of d k v v'] by (metis fst_conv image_eqI)

lemma keys_mark:
  assumes "mark_server_error mx servers a = Inr servers'"
  shows "fst ` set servers' = fst ` set servers"
proof (cases "map_of servers a")
  case None
  then show ?thesis using assms by (simp add: mark_server_error_def)
next
  case (Some s)
  have k: "fst ` set (dict_set a s' servers) = fst ` set servers" for s'
    by (rule keys_dict_set_present[OF Some])
  show ?thesis
  proof (cases "mx \<le> error_count s + 1")
    case True
    then have "servers' = dict_set a (s\<lparr>error_count := error_count s + 1,
        is_available := False\<rparr>) servers"
      using assms Some by (simp add: mark_server_error_def Let_def)
    then show ?thesis by (simp only: k)
  next
    case False
    then have "servers' = dict_set a (s\<lparr>error_count := error_count s + 1\<rparr>) servers"
      using assms Some by (simp add: mark_server_error_def Let_def)
    then show ?thesis by (simp only: k)
  qed
qed

lemma keys_body:
  "fst ` set (case apply_queue_body now servers a body of Inl s \<Rightarrow> s | Inr s \<Rightarrow> s)
     = fst ` set servers"
proof (cases body)
  case None
  then show ?thesis by (simp add: apply_queue_body_def)
next
  case (Some data)
  show ?thesis
  proof (cases "map_of servers a")
    case None
    then show ?thesis using Some by (simp add: apply_queue_body_def)
  next
    case st: (Some st)
    have k: "fst ` set (dict_set a s' servers) = fst ` set servers" for s'
      by (rule keys_dict_set_present[OF st])
    show ?thesis
      using Some st by (simp add: apply_queue_body_def Let_def k split: sum.splits)
  qed
qed

lemma keys_update:
  assumes "update_server_status mx now servers a outcome = Inr servers'"
  shows "fst ` set servers' = fst ` set servers"
proof (cases outcome)
  case RequestFailed
  then show ?thesis using assms keys_mark by (simp add: update_server_status_def)
next
  case (Response code body)
  show ?thesis
  proof (cases "code = 200")
    case False
    then show ?thesis using assms Response keys_mark by (simp add: update_server_status_def)
  next
    case True
    show ?thesis
    proof (cases "apply_queue_body now servers a body")
      case (Inl s1)
      have k: "fst ` set s1 = fst ` set servers"
        using keys_body[of now servers a body] Inl by simp
      have "mark_server_error mx s1 a = Inr servers'"
        using assms Response True Inl by (simp add: update_server_status_def)
      then have "fst ` set servers' = fst ` set s1" by (rule keys_mark)
      with k show ?thesis by simp
    next
      case (Inr s1)
      have k: "fst ` set s1 = fst ` set servers"
        using keys_body[of now servers a body] Inr by simp
      have "s1 = servers'"
        using assms Response True Inr by (simp add: update_server_status_def)
      with k show ?thesis by simp
    qed
  qed
qed

lemma keys_apply_probe:
  "fst ` set (apply_op mx (HealthCheck a outcome now) servers) = fst ` set servers"
  by (cases "update_server_status mx now servers a outcome") (simp_all add: keys_update)

lemma keys_task:
  "fst ` set (increment_task servers a) = fst ` set servers"
  "fst ` set (decrement_task servers a) = fst ` set servers"
proof -
  show "fst ` set (increment_task servers a) = fst ` set servers"
    by (cases "map_of servers a") (simp_all add: increment_task_def keys_dict_set_present)
  show "fst ` set (decrement_task servers a) = fst ` set servers"
    by (cases "map_of servers a") (simp_all add: decrement_task_def keys_dict_set_present)
qed

lemma keys_load_workflow: "fst ` set (tools (load_workflow pool w n)) = fst ` set (tools pool)"
  by (force simp: load_workflow_def)

lemma best_server_in_registry:
  assumes "get_best_server shuffle servers = Inr (Some a)"
    and "set (shuffle (filter (\<lambda>(addr, status). is_available status) servers))
           \<subseteq> set (filter (\<lambda>(addr, status). is_available status) servers)"
  shows "a \<in> fst ` set servers"
proof (cases "filter (\<lambda>(addr, status). is_available status) servers = []")
  case True
  then show ?thesis using assms(1)
    by (cases servers) (auto simp: get_best_server_def)
next
  case False
  let ?avl = "filter (\<lambda>(addr, status). is_available status) servers"
  from assms(1) False obtain s rest where
    "sort_key (\<lambda>x. total_load (snd x)) (shuffle ?avl) = (a, s) # rest"
    by (auto simp: get_best_server_def split: list.splits)
  then have "(a, s) \<in> set (shuffle ?avl)" by (metis list.set_intros(1) set_sort)
  then have "(a, s) \<in> set servers" using assms(2) by auto
  then show ?thesis by force
qed

lemma keys_get_tool:
  assumes "get_tool_for_request shuffle uuid servers pool = Inr (tool, pool')"
  shows "fst ` set (tools pool) \<subseteq> fst ` set (tools pool')"
proof -
  from assms obtain b t where "pool' = pool\<lparr>tools := dict_set b t (tools pool)\<rparr>"
    by (auto simp: get_tool_for_request_def Let_def split: sum.splits option.splits if_splits)
  then show ?thesis by (auto simp: keys_dict_set_set)
qed

lemma covered_step:
  assumes "covered st"
  shows "covered (app_step shuffle uuid mx op st)"
proof (cases op)
  case (AddBackend a)
  have "fst ` set (add_server (fst st) a) \<subseteq> insert a (fst ` set (fst st))"
    by (cases "map_of (fst st) a")
       (simp_all add: add_server_def keys_dict_set_set subset_insertI)
  moreover have "fst (pool_add_server uuid st a) = add_server (fst st) a"
    by (simp add: pool_add_server_def Let_def split: option.splits)
  ultimately have a1: "fst ` set (fst (pool_add_server uuid st a))
      \<subseteq> insert a (fst ` set (fst st))"
    by simp
  have a2: "insert a (fst ` set (fst st)) \<subseteq> insert a (fst ` set (tools (snd st)))"
    using assms unfolding covered_def by (rule insert_mono)
  have a3: "insert a (fst ` set (tools (snd st)))
      \<subseteq> fst ` set (tools (snd (pool_add_server uuid st a)))"
  proof (cases "map_of (tools (snd st)) a")
    case None
    then show ?thesis by (simp add: pool_add_server_def Let_def keys_dict_set_set)
  next
    case (Some t)
    then have "a \<in> fst ` set (tools (snd st))" by (rule map_of_Some_key)
    then show ?thesis using Some by (simp add: pool_add_server_def Let_def)
  qed
  have "fst ` set (fst (pool_add_server uuid st a))
      \<subseteq> fst ` set (tools (snd (pool_add_server uuid st a)))"
    by (rule order_trans[OF a1 order_trans[OF a2 a3]])
  then show ?thesis by (simp add: covered_def AddBackend)
next
  case (RemoveBackend a)
  have "fst ` set (remove_server (fst st) a) \<subseteq> fst ` set (fst st)"
    using keys_dict_del[of a "fst st"] by (simp add: remove_server_def split: option.splits)
  then show ?thesis
    using assms unfolding covered_def RemoveBackend by auto
next
  case Request
  show ?thesis
  proof (cases "get_tool_for_request shuffle uuid (fst st) (snd st)")
    case (Inl e)
    then show ?thesis using assms Request by simp
  next
    case (Inr r)
    obtain tool pool' where r: "r = (tool, pool')" by (cases r)
    have "fst ` set (tools (snd st)) \<subseteq> fst ` set (tools pool')"
      using keys_get_tool Inr r by blast
    then show ?thesis using assms Request Inr r by (auto simp: covered_def)
  qed
next
  case (LoadWorkflow w n)
  then show ?thesis using assms by (simp add: covered_def keys_load_workflow)
next
  case (Probe a outcome now)
  then show ?thesis
    using assms keys_apply_probe[of mx a outcome now "fst st"] by (simp add: covered_def)
next
  case (TaskStarted a)
  then show ?thesis using assms by (simp add: covered_def keys_task)
next
  case (TaskEnded a)
  then show ?thesis using assms by (simp add: covered_def keys_task)
qed

lemma covered_reachable:
  "covered (fold (app_step shuffle uuid mx) ops (app_init uuid addrs))"
proof -
  have "covered (app_init uuid addrs)"
    by (simp add: covered_def app_init_def init_pool_def init_servers_def keys_fold_dict_set)
  moreover have "covered st \<Longrightarrow> covered (fold (app_step shuffle uuid mx) ops st)" for st
    by (induction ops arbitrary: st) (auto simp: covered_step)
  ultimately show ?thesis by simp
qed

lemma preload_each_all:
  assumes "\<forall>(a, t) \<in> set ts.
      preload_full_workflow (io a) (preloaded t) w timeout = Some (res a, flag a)"
  shows "preload_each io w timeout ts
    = Some (map (\<lambda>(a, t). (a, res a)) ts, map (\<lambda>(a, t). (a, t\<lparr>preloaded := flag a\<rparr>)) ts)"
  using assms
proof (induction ts)
  case Nil
  then show ?case by simp
next
  case (Cons p ts)
  obtain a t where p: "p = (a, t)" by (cases p)
  have 1: "preload_full_workflow (io a) (preloaded t) w timeout = Some (res a, flag a)"
    using Cons.prems by (simp add: p)
  have 2: "preload_each io w timeout ts
    = Some (map (\<lambda>(a, t). (a, res a)) ts, map (\<lambda>(a, t). (a, t\<lparr>preloaded := flag a\<rparr>)) ts)"
    using Cons by simp
  show ?case by (simp add: p 1 2)
qed

lemma load_workflow_tools:
  "tools (load_workflow pool w n) = map (\<lambda>(addr, tool). (addr, tool\<lparr>tool_workflow := w\<rparr>)) (tools pool)"
  by (simp add: load_workflow_def)

lemma preload_all_after_load:
  assumes "\<forall>(a, t) \<in> set (tools pool).
      preload_full_workflow (io a) (preloaded t) w timeout = Some (res a, flag a)"
    and "tools pool \<noteq> []"
  shows "\<exists>pool2. preload_all_servers io (load_workflow pool w n) w timeout
           = Some (Inr (map (\<lambda>(a, t). (a, res a)) (tools pool), pool2))"
proof -
  let ?ts = "tools (load_workflow pool w n)"
  have "\<forall>(a, t) \<in> set ?ts.
      preload_full_workflow (io a) (preloaded t) w timeout = Some (res a, flag a)"
    using assms(1) by (auto simp: load_workflow_tools)
  then have "preload_each io w timeout ?ts
    = Some (map (\<lambda>(a, t). (a, res a)) ?ts, map (\<lambda>(a, t). (a, t\<lparr>preloaded := flag a\<rparr>)) ?ts)"
    by (rule preload_each_all)
  moreover have "map (\<lambda>(a, t). (a, res a)) ?ts = map (\<lambda>(a, t). (a, res a)) (tools pool)"
    by (simp add: load_workflow_tools case_prod_unfold)
  moreover have "?ts \<noteq> []" using assms(2) by (simp add: load_workflow_tools)
  ultimately show ?thesis by (simp add: preload_all_servers_def)
qed

lemma success_count_zero:
  "filter (\<lambda>(addr, ok, _). ok) (map (\<lambda>(a, t). (a, res a)) ts) = []
     \<longleftrightarrow> \<not> list_ex (\<lambda>(a, t). fst (res a)) ts"
  by (auto simp: filter_empty_conv list_ex_iff)

text \<open>
  C9, as the code has it: \<open>load_template\<close> in image mode, for a template file that
  exists and holds a non-empty workflow, when the preload of every tool of the pool
  returns (\<open>res a\<close> is its result on backend \<open>a\<close>). The preload runs on every tool of
  the pool; the pool holds a tool for every backend of the registry in every state the
  application reaches, and keeps the tool of a backend that was removed from the
  registry. The call fails exactly when no preload of a tool succeeded: with the 500
  \<open>HTTPException\<close>, or, for a pool without tools, with the \<open>ValueError\<close> of the
  executor. When a preload succeeded the answer is the success response with the result
  of every tool. In video mode the answer and the pool do not depend on the backends:
  the workflow is stored and no preload is made.
\<close>

theorem load_template_preload:
  assumes rd: "read_template image_template_dir template = Some (Inr w)"
    and tw: "truthy w"
    and outs: "\<forall>(a, t) \<in> set (tools pool).
      preload_full_workflow (io a) (preloaded t) w timeout = Some (res a, flag a)"
  shows "fst (load_template read_template io timeout pool template ''image'') =
           (if list_ex (\<lambda>(a, t). fst (res a)) (tools pool)
            then Some (Inr (LoadTemplateResponse ''success''
                    (PreloadResults (map (\<lambda>(a, t). (a, res a)) (tools pool))) ''image''))
            else if tools pool = [] then Some (Inl (Raised ValueError))
            else Some (Inl (HTTPException 500 ''Preload failed on all servers'')))
       \<and> ((\<exists>e. fst (load_template read_template io timeout pool template ''image'')
                  = Some (Inl e))
            \<longleftrightarrow> \<not> list_ex (\<lambda>(a, t). fst (res a)) (tools pool))
       \<and> (read_template video_template_dir template = Some (Inr w') \<and> truthy w' \<longrightarrow>
            load_template read_template io' timeout pool template ''video''
              = (Some (Inr (LoadTemplateResponse ''success'' NoPreload ''video'')),
                 load_workflow pool w' template))
       \<and> fst ` set (fst (fold (app_step shuffle uuid mx) ops (app_init uuid addrs)))
            \<subseteq> fst ` set (tools (snd (fold (app_step shuffle uuid mx) ops (app_init uuid addrs))))"
proof -
  have main: "fst (load_template read_template io timeout pool template ''image'') =
           (if list_ex (\<lambda>(a, t). fst (res a)) (tools pool)
            then Some (Inr (LoadTemplateResponse ''success''
                    (PreloadResults (map (\<lambda>(a, t). (a, res a)) (tools pool))) ''image''))
            else if tools pool = [] then Some (Inl (Raised ValueError))
            else Some (Inl (HTTPException 500 ''Preload failed on all servers'')))"
  proof (cases "tools pool = []")
    case True
    then have "tools (load_workflow pool w template) = []" by (simp add: load_workflow_tools)
    then show ?thesis using rd tw True
      by (simp add: load_template_def Let_def preload_all_servers_def)
  next
    case False
    from preload_all_after_load[OF outs False, of template] obtain pool2 where
      p: "preload_all_servers io (load_workflow pool w template) w timeout
           = Some (Inr (map (\<lambda>(a, t). (a, res a)) (tools pool), pool2))" by blast
    show ?thesis
      using rd tw False
      by (simp add: load_template_def Let_def p success_count_zero)
  qed
  have video: "read_template video_template_dir template = Some (Inr w') \<and> truthy w' \<longrightarrow>
            load_template read_template io' timeout pool template ''video''
              = (Some (Inr (LoadTemplateResponse ''success'' NoPreload ''video'')),
                 load_workflow pool w' template)"
    by (simp add: load_template_def Let_def)
  have cov: "fst ` set (fst (fold (app_step shuffle uuid mx) ops (app_init uuid addrs)))
            \<subseteq> fst ` set (tools (snd (fold (app_step shuffle uuid mx) ops (app_init uuid addrs))))"
    using covered_reachable[of shuffle uuid mx ops addrs] by (simp add: covered_def)
  have iff: "(\<exists>e. fst (load_template read_template io timeout pool template ''image'')
                  = Some (Inl e))
            \<longleftrightarrow> \<not> list_ex (\<lambda>(a, t). fst (res a)) (tools pool)"
    unfolding main by simp
  from main iff video cov show ?thesis by blast
qed

theorem load_template_preload_witness:
  "fst (load_template
         (\<lambda>dir name. Some (Inr (JDict [(''10'', JDict [(''class_type'', JStr ''LoadImage'')])])))
         (\<lambda>a. \<lparr>queue_prompt = (\<lambda>g. if a = ''a:1'' then Inl TransportError
                                      else Inr (JDict [(''prompt_id'', JStr ''p1'')])),
                ws_connect = Inr ([(1, TextFrame (Some (JDict [(''type'', JStr ''executing''),
                    (''data'', JDict [(''node'', JNull), (''prompt_id'', JStr ''p1'')])])))], 2),
                clock = 0, get_history = (\<lambda>p. Inr (JDict [])),
                get_image_bytes = (\<lambda>f s t. Inr []), placeholder_exists = True,
                create_placeholder_image = True\<rparr>)
         300
         \<lparr>tools = [(''a:1'', new_tool id ''a:1''), (''b:2'', new_tool id ''b:2'')],
          pool_workflow = JNull, current_template = None\<rparr>
         ''swap.json'' ''image'')
   = Some (Inr (LoadTemplateResponse ''success''
        (PreloadResults [(''a:1'', (False, PreloadException TransportError)),
                         (''b:2'', (True, Preloaded (JStr ''p1'')))]) ''image''))"
proof -
  let ?w = "JDict [(''10'', JDict [(''class_type'', JStr ''LoadImage'')])]"
  let ?rd = "\<lambda>dir name. Some (Inr ?w) :: (py_error + jval) option"
  let ?io = "\<lambda>a. \<lparr>queue_prompt = (\<lambda>g. if a = ''a:1'' then Inl TransportError
                                      else Inr (JDict [(''prompt_id'', JStr ''p1'')])),
                ws_connect = Inr ([(1, TextFrame (Some (JDict [(''type'', JStr ''executing''),
                    (''data'', JDict [(''node'', JNull), (''prompt_id'', JStr ''p1'')])])))], 2),
                clock = 0, get_history = (\<lambda>p. Inr (JDict [])),
                get_image_bytes = (\<lambda>f s t. Inr []), placeholder_exists = True,
                create_placeholder_image = True\<rparr>"
  let ?pool = "\<lparr>tools = [(''a:1'', new_tool id ''a:1''), (''b:2'', new_tool id ''b:2'')],
          pool_workflow = JNull, current_template = None\<rparr>"
  let ?res = "\<lambda>a. if a = ''a:1'' then (False, PreloadException TransportError)
                  else (True, Preloaded (JStr ''p1''))"
  let ?flag = "\<lambda>a. a \<noteq> ''a:1''"
  have rd: "?rd image_template_dir ''swap.json'' = Some (Inr ?w)" by simp
  have tw: "truthy ?w" by simp
  have wait: "fst (wait_for_prompt_exec (JStr ''p1'') 300 0
      (Inr ([(1, TextFrame (Some (JDict [(''type'', JStr ''executing''),
                    (''data'', JDict [(''node'', JNull), (''prompt_id'', JStr ''p1'')])])))], 2)))
    = Some (Inr True)"
    by (simp add: wait_for_prompt_exec_def try_finally_def handle_message_def py_eq_JStr)
  have pid: "get_prompt_id (JDict [(''prompt_id'', JStr ''p1'')]) = Inr (JStr ''p1'')"
    by (simp add: get_prompt_id_def py_or_def)
  have a: "preload_full_workflow (?io ''a:1'') False ?w 300 = Some (?res ''a:1'', ?flag ''a:1'')"
    by (simp add: preload_full_workflow_def is_load_image_def rewrite_node_def
          setdefault_inputs_def rewrite_inputs_def)
  have b: "preload_full_workflow (?io ''b:2'') False ?w 300 = Some (?res ''b:2'', ?flag ''b:2'')"
    by (simp add: preload_full_workflow_def is_load_image_def rewrite_node_def
          setdefault_inputs_def rewrite_inputs_def pid wait)
  have outs: "\<forall>(a, t) \<in> set (tools ?pool).
      preload_full_workflow (?io a) (preloaded t) ?w 300 = Some (?res a, ?flag a)"
    using a b by (simp add: new_tool_def)
  show ?thesis
    using load_template_preload [of ?rd "''swap.json''" ?w ?pool ?io 300 ?res ?flag,
        OF rd tw outs]
    by simp
qed

text \<open>
  The claim as first stated fails. After \<open>/servers/remove\<close> of \<open>b:2\<close> the registry
  holds \<open>a:1\<close> alone and the pool still holds both tools: the preload fails on \<open>a:1\<close>
  and succeeds on \<open>b:2\<close>, so no registered backend preloaded successfully, and the call
  answers with success. And with a preload that does not return (\<open>b:2\<close> is silent)
  the call does not return either, although \<open>a:1\<close> preloaded successfully.
\<close>

theorem load_template_preload_counterexample:
  "fold (app_step (\<lambda>xs. xs) (\<lambda>a. a) 3) [RemoveBackend ''b:2'']
       (app_init (\<lambda>a. a) [''a:1'', ''b:2''])
     = ([(''a:1'', new_status ''a:1'')],
        \<lparr>tools = [(''a:1'', new_tool (\<lambda>a. a) ''a:1''), (''b:2'', new_tool (\<lambda>a. a) ''b:2'')],
         pool_workflow = JNull, current_template = None\<rparr>)
   \<and> fst (load_template
         (\<lambda>dir name. Some (Inr (JDict [(''10'', JDict [(''class_type'', JStr ''LoadImage'')])])))
         (\<lambda>a. \<lparr>queue_prompt = (\<lambda>g. if a = ''a:1'' then Inl TransportError
                                      else Inr (JDict [(''prompt_id'', JStr ''p1'')])),
                ws_connect = Inr ([(1, TextFrame (Some (JDict [(''type'', JStr ''executing''),
                    (''data'', JDict [(''node'', JNull), (''prompt_id'', JStr ''p1'')])])))], 2),
                clock = 0, get_history = (\<lambda>p. Inr (JDict [])),
                get_image_bytes = (\<lambda>f s t. Inr []), placeholder_exists = True,
                create_placeholder_image = True\<rparr>)
         300
         \<lparr>tools = [(''a:1'', new_tool (\<lambda>a. a) ''a:1''), (''b:2'', new_tool (\<lambda>a. a) ''b:2'')],
          pool_workflow = JNull, current_template = None\<rparr>
         ''swap.json'' ''image'')
     = Some (Inr (LoadTemplateResponse ''success''
          (PreloadResults [(''a:1'', (False, PreloadException TransportError)),
                           (''b:2'', (True, Preloaded (JStr ''p1'')))]) ''image''))
   \<and> fst (load_template
         (\<lambda>dir name. Some (Inr (JDict [(''10'', JDict [(''class_type'', JStr ''LoadImage'')])])))
         (\<lambda>a. \<lparr>queue_prompt = (\<lambda>g. Inr (JDict [(''prompt_id'', JStr ''p1'')])),
                ws_connect = (if a = ''a:1''
                   then Inr ([(1, TextFrame (Some (JDict [(''type'', JStr ''executing''),
                    (''data'', JDict [(''node'', JNull), (''prompt_id'', JStr ''p1'')])])))], 2)
                   else Inr ([], 0)),
                clock = 0, get_history = (\<lambda>p. Inr (JDict [])),
                get_image_bytes = (\<lambda>f s t. Inr []), placeholder_exists = True,
                create_placeholder_image = True\<rparr>)
         300
         \<lparr>tools = [(''a:1'', new_tool (\<lambda>a. a) ''a:1''), (''b:2'', new_tool (\<lambda>a. a) ''b:2'')],
          pool_workflow = JNull, current_template = None\<rparr>
         ''swap.json'' ''image'')
     = None"
proof -
  have pid: "get_prompt_id (JDict [(''prompt_id'', JStr ''p1'')]) = Inr (JStr ''p1'')"
    by (simp add: get_prompt_id_def py_or_def)
  have wait: "fst (wait_for_prompt_exec (JStr ''p1'') 300 0
      (Inr ([(1, TextFrame (Some (JDict [(''type'', JStr ''executing''),
                    (''data'', JDict [(''node'', JNull), (''prompt_id'', JStr ''p1'')])])))], 2)))
    = Some (Inr True)"
    by (simp add: wait_for_prompt_exec_def try_finally_def handle_message_def py_eq_JStr)
  have silent: "fst (wait_for_prompt_exec (JStr ''p1'') 300 0 (Inr ([], 0))) = None"
    by (simp add: wait_for_prompt_exec_def try_finally_def)
  have 1: "fold (app_step (\<lambda>xs. xs) (\<lambda>a. a) 3) [RemoveBackend ''b:2'']
       (app_init (\<lambda>a. a) [''a:1'', ''b:2''])
     = ([(''a:1'', new_status ''a:1'')],
        \<lparr>tools = [(''a:1'', new_tool (\<lambda>a. a) ''a:1''), (''b:2'', new_tool (\<lambda>a. a) ''b:2'')],
         pool_workflow = JNull, current_template = None\<rparr>)"
    by (simp add: app_init_def init_servers_def init_pool_def remove_server_def dict_del_def)
  show ?thesis
    unfolding 1
    by (simp add: load_template_def load_workflow_def preload_all_servers_def Let_def
          preload_full_workflow_def is_load_image_def rewrite_node_def setdefault_inputs_def
          rewrite_inputs_def pid wait silent new_tool_def image_template_dir_def)
qed

section \<open>Task accounting around a request\<close>

lemma bracketed_dispatch: "bracketed app (dispatch rq body app)"
proof (cases "get_tool_for_request (rq_shuffle rq) (rq_uuid rq) (app_servers app) (app_pool app)")
  case (Inl e)
  then show ?thesis by (simp add: dispatch_def bracketed_def)
next
  case (Inr r)
  obtain comfy_tool pool' where r: "r = (comfy_tool, pool')" by (cases r)
  show ?thesis
  proof (cases "body comfy_tool")
    case None
    then show ?thesis
      using Inr r
      by (simp add: dispatch_def bracketed_def Let_def try_finally_def lb_increment_task_def)
  next
    case (Some out)
    then show ?thesis
      using Inr r
      by (cases out)
         (simp_all add: dispatch_def bracketed_def Let_def try_finally_def
            lb_increment_task_def lb_decrement_task_def)
  qed
qed

lemma bracketed_pool:
  "bracketed (app\<lparr>app_pool := p\<rparr>) r \<Longrightarrow> bracketed app r"
  by (simp add: bracketed_def)

lemma dispatch_exit:
  assumes "get_tool_for_request (rq_shuffle rq) (rq_uuid rq) (app_servers app) (app_pool app)
             = Inr (comfy_tool, pool')"
    and "body comfy_tool = Some out"
  shows "app_log (snd (dispatch rq body app))
           = app_log app @ [Incremented (tool_address comfy_tool),
                            Decremented (tool_address comfy_tool)]"
    and "app_servers (snd (dispatch rq body app))
           = decrement_task (increment_task (app_servers app) (tool_address comfy_tool))
               (tool_address comfy_tool)"
  using assms
  by (cases out;
      simp add: dispatch_def Let_def try_finally_def lb_increment_task_def
        lb_decrement_task_def)+

text \<open>
  C5: for \<open>process_image\<close> and \<open>process_video\<close>, whatever the template files, the
  file system and the backends do. A request that ends has either counted no task (it
  failed before a backend was bound), or has executed one \<open>increment_task(b)\<close> and then
  one \<open>decrement_task(b)\<close> and nothing else on the counters: the inner block's result
  may be a response or any exception (no workflow, no job id, timeout of the watch,
  transport error, an error while fetching or storing the result). Once a tool is bound
  and the inner block ends, with whatever outcome, the log grows by exactly that pair.
\<close>

theorem task_bracketing:
  "bracketed app (process_image rq app template mode)
   \<and> bracketed app (process_video rq app template mode)
   \<and> (get_tool_for_request (rq_shuffle rq) (rq_uuid rq) (app_servers app) (app_pool app)
         = Inr (comfy_tool, pool') \<and> body comfy_tool = Some out \<longrightarrow>
        app_log (snd (dispatch rq body app))
          = app_log app @ [Incremented (tool_address comfy_tool),
                           Decremented (tool_address comfy_tool)]
        \<and> app_servers (snd (dispatch rq body app))
          = decrement_task (increment_task (app_servers app) (tool_address comfy_tool))
              (tool_address comfy_tool))"
proof (intro conjI impI)
  assume "get_tool_for_request (rq_shuffle rq) (rq_uuid rq) (app_servers app) (app_pool app)
         = Inr (comfy_tool, pool') \<and> body comfy_tool = Some out"
  then have g: "get_tool_for_request (rq_shuffle rq) (rq_uuid rq) (app_servers app)
      (app_pool app) = Inr (comfy_tool, pool')" and b: "body comfy_tool = Some out"
    by simp_all
  show "app_log (snd (dispatch rq body app))
          = app_log app @ [Incremented (tool_address comfy_tool),
                           Decremented (tool_address comfy_tool)]"
    by (rule dispatch_exit(1)[where body = body, OF g b])
  show "app_servers (snd (dispatch rq body app))
          = decrement_task (increment_task (app_servers app) (tool_address comfy_tool))
              (tool_address comfy_tool)"
    by (rule dispatch_exit(2)[where body = body, OF g b])
next
  show "bracketed app (process_image rq app template mode)"
  proof (cases "reload_template rq (app_pool app) template mode")
    case (Inl e)
    then show ?thesis by (simp add: process_image_def bracketed_def)
  next
    case (Inr pool1)
    have d: "bracketed app (dispatch rq (image_body rq) (app\<lparr>app_pool := pool1\<rparr>))"
      by (rule bracketed_pool) (rule bracketed_dispatch)
    show ?thesis
      using Inr d
      by (cases "rq_save_upload rq"; cases "rq_copy_to_input rq")
         (simp_all add: process_image_def Let_def, simp_all add: bracketed_def)
  qed
  show "bracketed app (process_video rq app template mode)"
  proof (cases "reload_template rq (app_pool app) template mode")
    case (Inl e)
    then show ?thesis by (simp add: process_video_def bracketed_def)
  next
    case (Inr pool1)
    have d: "bracketed app (dispatch rq (video_body rq) (app\<lparr>app_pool := pool1\<rparr>))"
      by (rule bracketed_pool) (rule bracketed_dispatch)
    show ?thesis
      using Inr d
      by (cases "rq_save_upload rq"; cases "rq_copy_to_input rq")
         (simp_all add: process_video_def Let_def, simp_all add: bracketed_def)
  qed
qed

theorem task_bracketing_witness:
  "process_image
     \<lparr>rq_read_template = (\<lambda>dir name. Some (Inr (JDict [(''10'', JDict [(''class_type'', JStr ''LoadImage'')])]))),
      rq_save_upload = None, rq_copy_to_input = None, rq_unique_filename = ''u.png'',
      rq_shuffle = (\<lambda>xs. xs), rq_uuid = (\<lambda>a. a),
      rq_backend = (\<lambda>a. \<lparr>queue_prompt = (\<lambda>g. Inr (JDict [(''prompt_id'', JStr ''p1'')])),
                ws_connect = Inr ([(1, BinaryFrame)], 700),
                clock = 0, get_history = (\<lambda>p. Inr (JDict [])),
                get_image_bytes = (\<lambda>f s t. Inr []), placeholder_exists = True,
                create_placeholder_image = True\<rparr>),
      rq_timeout = 600, rq_decode_image = (\<lambda>b. Inr b), rq_write_processed = (\<lambda>b. None),
      rq_upload_name_lower = ''face.png''\<rparr>
     \<lparr>app_servers = [(''a:1'', new_status ''a:1'')],
      app_pool = \<lparr>tools = [(''a:1'', new_tool (\<lambda>a. a) ''a:1'')], pool_workflow = JNull,
                  current_template = None\<rparr>,
      app_log = []\<rparr>
     ''swap.json'' ''image''
   = (Some (Inl (HTTPException 500 ''Processing error'')),
      \<lparr>app_servers = [(''a:1'', new_status ''a:1'')],
       app_pool = \<lparr>tools = [(''a:1'', (new_tool (\<lambda>a. a) ''a:1'')
                     \<lparr>tool_workflow := JDict [(''10'', JDict [(''class_type'', JStr ''LoadImage'')])]\<rparr>)],
                   pool_workflow = JDict [(''10'', JDict [(''class_type'', JStr ''LoadImage'')])],
                   current_template = Some ''swap.json''\<rparr>,
       app_log = [Incremented ''a:1'', Decremented ''a:1'']\<rparr>)"
proof -
  let ?w = "JDict [(''10'', JDict [(''class_type'', JStr ''LoadImage'')])]"
  let ?io = "\<lparr>queue_prompt = (\<lambda>g. Inr (JDict [(''prompt_id'', JStr ''p1'')])),
                ws_connect = Inr ([(1::real, BinaryFrame)], 700::real),
                clock = 0, get_history = (\<lambda>p. Inr (JDict [])),
                get_image_bytes = (\<lambda>f s t. Inr []), placeholder_exists = True,
                create_placeholder_image = True\<rparr>"
  let ?rq = "\<lparr>rq_read_template = (\<lambda>dir name. Some (Inr ?w)),
      rq_save_upload = None, rq_copy_to_input = None, rq_unique_filename = ''u.png'',
      rq_shuffle = (\<lambda>xs. xs), rq_uuid = (\<lambda>a. a),
      rq_backend = (\<lambda>a. ?io),
      rq_timeout = 600, rq_decode_image = (\<lambda>b. Inr b), rq_write_processed = (\<lambda>b. None),
      rq_upload_name_lower = ''face.png''\<rparr>"
  let ?t = "(new_tool (\<lambda>a. a) ''a:1'')\<lparr>tool_workflow := ?w\<rparr>"
  let ?pool1 = "\<lparr>tools = [(''a:1'', ?t)], pool_workflow = ?w,
                  current_template = Some ''swap.json''\<rparr>"
  let ?app1 = "\<lparr>app_servers = [(''a:1'', new_status ''a:1'')], app_pool = ?pool1,
                 app_log = []\<rparr>"
  have g: "get_tool_for_request (rq_shuffle ?rq) (rq_uuid ?rq) (app_servers ?app1)
      (app_pool ?app1) = Inr (?t, ?pool1)"
    by (simp add: get_tool_for_request_def get_best_server_def new_status_def new_tool_def
          Let_def)
  have pid: "get_prompt_id (JDict [(''prompt_id'', JStr ''p1'')]) = Inr (JStr ''p1'')"
    by (simp add: get_prompt_id_def py_or_def)
  have wait: "fst (wait_for_prompt_exec (JStr ''p1'') 600 0 (Inr ([(1, BinaryFrame)], 700)))
      = Some (Inr False)"
    by (simp add: wait_for_prompt_exec_def try_finally_def)
  have run: "run_workflow_with_image ?io ?w ''u.png'' 600 = Some (Inl RuntimeError)"
    by (simp add: run_workflow_with_image_def rewrite_image_def target_node_id_def
          is_load_image_def rewrite_node_def setdefault_inputs_def rewrite_inputs_def
          submit_and_fetch_def pid wait)
  have b: "image_body ?rq ?t = Some (Inl (Raised RuntimeError))"
    using run by (simp add: image_body_def new_tool_def)
  have d: "dispatch ?rq (image_body ?rq) ?app1
      = (Some (Inl (HTTPException 500 ''Processing error'')), snd (dispatch ?rq (image_body ?rq) ?app1))"
    using g b by (simp add: dispatch_def Let_def try_finally_def)
  have l: "app_log (snd (dispatch ?rq (image_body ?rq) ?app1))
             = [Incremented ''a:1'', Decremented ''a:1'']
           \<and> app_servers (snd (dispatch ?rq (image_body ?rq) ?app1))
             = [(''a:1'', new_status ''a:1'')]"
    using task_bracketing [of ?app1 ?rq "''swap.json''" "''image''" ?t ?pool1 "image_body ?rq"
        "Inl (Raised RuntimeError)"] g b
    by (simp add: new_tool_def increment_task_def decrement_task_def new_status_def)
  have p: "app_pool (snd (dispatch ?rq (image_body ?rq) ?app1)) = ?pool1"
    using g b
    by (simp add: dispatch_def Let_def try_finally_def lb_increment_task_def
          lb_decrement_task_def)
  have s: "snd (dispatch ?rq (image_body ?rq) ?app1)
      = \<lparr>app_servers = [(''a:1'', new_status ''a:1'')], app_pool = ?pool1,
         app_log = [Incremented ''a:1'', Decremented ''a:1'']\<rparr>"
    using l p by (cases "snd (dispatch ?rq (image_body ?rq) ?app1)") simp
  have "process_image ?rq
     \<lparr>app_servers = [(''a:1'', new_status ''a:1'')],
      app_pool = \<lparr>tools = [(''a:1'', new_tool (\<lambda>a. a) ''a:1'')], pool_workflow = JNull,
                  current_template = None\<rparr>,
      app_log = []\<rparr> ''swap.json'' ''image'' = dispatch ?rq (image_body ?rq) ?app1"
    by (simp add: process_image_def reload_template_def load_workflow_def Let_def)
  with d s show ?thesis by simp
qed

end
